theory Spec2Isabelle
  imports Complex_Main "HOL-Library.Signed_Division" "HOL-Library.Multiset"
begin

section \<open>Go values used by the aggregation engine\<close>

text \<open>
  The engine is Go code (the database layer and the cumulative handler of the
  fuel monitoring API).  Its values are modelled as follows.
  \<^item> \<open>time.Time\<close> is an instant in UTC, counted in nanoseconds from the Unix epoch.
  \<^item> \<open>time.Duration\<close> is a 64-bit count of nanoseconds; \<open>Time.Sub\<close> saturates at the
    smallest and the largest duration, as the Go library documents.
  \<^item> A \<open>float64\<close> is the real number it denotes.  Where the code takes a decision on
    the result of a float operation, or converts it to an integer, the operation is
    written with its IEEE rounding, \<open>float64_round\<close> (to the nearest float64, a tie to
    the even significand): the level loop of \<open>CalculateFuelChanges\<close> and
    \<open>roundToDecimal\<close>.  The other sums, differences and quotients (hours of runtime,
    the volume loop, the sums of the summaries, the sums of the store) are exact;
    infinities and NaN are outside the model.
  \<^item> \<open>int\<close> is the 64-bit integer of the build target; the conversion \<open>int(f)\<close>
    cuts the fraction off.
  \<^item> An \<open>error\<close> is the text of its message; a function that returns a value and an
    error returns a sum, \<open>Inl\<close> carrying the error.
  \<^item> A struct is a record.  Structs of the code share field names, so each field
    carries a short prefix for its struct: \<open>sr_FuelConsumed\<close> is the field
    \<open>FuelConsumed\<close> of a \<open>CumulativeSiteResult\<close>.
\<close>

type_synonym Time = int
type_synonym Duration = int
type_synonym error = string

definition Nanosecond :: Duration where "Nanosecond = 1"
definition Second :: Duration where "Second = 1000000000"
definition Hour :: Duration where "Hour = 3600000000000"

definition minDuration :: Duration where "minDuration = - (2 ^ 63)"
definition maxDuration :: Duration where "maxDuration = 2 ^ 63 - 1"

text \<open>The zero value of \<open>time.Time\<close>: 1 January of year 1, 00:00 UTC.\<close>

definition zeroTime :: Time where "zeroTime = - 62135596800000000000"

text \<open>\<open>t.Sub(u)\<close>: the duration \<open>t - u\<close>, or the nearest duration when that is out of range.\<close>

definition Sub :: "Time \<Rightarrow> Time \<Rightarrow> Duration" where
  "Sub t u = (let d = t - u in
     if d < minDuration then minDuration
     else if maxDuration < d then maxDuration
     else d)"

definition Before :: "Time \<Rightarrow> Time \<Rightarrow> bool" where
  "Before t u = (t < u)"

definition Equal :: "Time \<Rightarrow> Time \<Rightarrow> bool" where
  "Equal t u = (t = u)"

text \<open>
  \<open>d.Hours()\<close> of the Go library:
  \<^verbatim>\<open>hour := d / Hour; nsec := d % Hour; return float64(hour) + float64(nsec)/(60*60*1e9)\<close>,
  with Go's division and remainder, which truncate towards zero.
\<close>

definition Hours :: "Duration \<Rightarrow> real" where
  "Hours d = (let hour = d sdiv Hour; nsec = d smod Hour in
     real_of_int hour + real_of_int nsec / (60 * 60 * 1000000000))"

text \<open>
  \<open>int(f)\<close> for a \<open>float64\<close>: the fraction is discarded.  When the result does not fit
  64 bits Go leaves the value to the implementation; the amd64 instruction gives the
  smallest 64-bit integer, which is what is written here.  No implementation can give a
  value outside the 64-bit range.
\<close>

definition float64_to_int :: "real \<Rightarrow> int" where
  "float64_to_int f = (let t = (if 0 \<le> f then \<lfloor>f\<rfloor> else \<lceil>f\<rceil>) in
     if - (2 ^ 63) \<le> t \<and> t \<le> 2 ^ 63 - 1 then t else - (2 ^ 63))"

text \<open>
  The result of a \<open>float64\<close> operation is the exact result rounded to the nearest
  float64.  A float64 is \<open>m * 2^(e - 52)\<close> with an integer \<open>m\<close> of at most 53 bits and
  an exponent \<open>e\<close> from -1022 to 1023; \<open>float64_exponent x\<close> is the exponent of the
  binade of \<open>x\<close> (the largest such \<open>e\<close> with \<open>2^e \<le> |x|\<close>, and -1022 for the
  subnormal numbers below), so that the float64 values around \<open>x\<close> are the multiples of
  \<open>2^(e - 52)\<close>, and \<open>float64_round\<close> takes the nearest multiple, a tie going to the
  even one.  A result of magnitude \<open>2^1024\<close> or more is an infinity in Go and is outside
  the model.
\<close>

definition round_half_even :: "real \<Rightarrow> int" where
  "round_half_even x = (let f = \<lfloor>x\<rfloor>; d = x - real_of_int f in
     if d < 1 / 2 then f
     else if 1 / 2 < d then f + 1
     else if even f then f else f + 1)"

definition pow2 :: "int \<Rightarrow> real" where
  "pow2 e = (if 0 \<le> e then 2 ^ nat e else 1 / 2 ^ nat (- e))"

fun exp_search :: "nat \<Rightarrow> int \<Rightarrow> real \<Rightarrow> int" where
  "exp_search 0 e a = e"
| "exp_search (Suc n) e a = (if pow2 e \<le> a then e else exp_search n (e - 1) a)"

definition float64_exponent :: "real \<Rightarrow> int" where
  "float64_exponent x = exp_search 2045 1023 \<bar>x\<bar>"

definition float64_round :: "real \<Rightarrow> real" where
  "float64_round x = (let ulp = pow2 (float64_exponent x - 52) in
     real_of_int (round_half_even (x / ulp)) * ulp)"

section \<open>The store\<close>

text \<open>
  The raw reading store answers a query with an error or with the rows it found.  It is
  outside the engine, so its answers are taken as they come: for each of the three
  queries on \<open>sensor_readings\<close> the store holds the answer it gives.  A row whose
  \<open>Scan\<close> fails is \<open>None\<close>; the loops skip it.

  The table \<open>cumulative_readings\<close> is kept as the list of its rows, with at most one
  row for a site and a date.  A calendar day, which the code writes as \<open>YYYY-MM-DD\<close>, is
  the number of the day counted from 1970-01-01, ordered as the texts are.  The metric
  columns hold decimal texts; a text is modelled by the number it denotes.  A write or an
  aggregate query may fail; the store holds which do.
\<close>

type_synonym Date = int

type_synonym state_row = "(string \<times> Time) option"
type_synonym fuel_row = "(string \<times> Time \<times> string) option"

record CumulativeReading =
  cr_ID :: int
  cr_SiteID :: int
  cr_DeviceID :: string
  cr_Date :: Date
  cr_TotalFuelConsumed :: real
  cr_TotalFuelTopped :: real
  cr_FuelConsumedPercent :: real
  cr_FuelToppedPercent :: real
  cr_TotalGeneratorRuntime :: real
  cr_TotalZesaRuntime :: real
  cr_TotalOfflineTime :: real
  cr_CalculatedAt :: Time
  cr_CreatedAt :: Time

record DB =
  QueryStateReadings :: "string \<Rightarrow> string \<Rightarrow> Time \<Rightarrow> Time \<Rightarrow> error + state_row list"
  QueryGeneratorOnCount :: "string \<Rightarrow> Time \<Rightarrow> Time \<Rightarrow> error + int"
  QueryFuelReadings :: "string \<Rightarrow> Time \<Rightarrow> Time \<Rightarrow> error + fuel_row list"
  cumulative_readings :: "CumulativeReading list"
  cumulative_readings_seq :: int
  UpsertFault :: "int \<Rightarrow> Date \<Rightarrow> error option"
  RangeQueryFault :: "int \<Rightarrow> Date \<Rightarrow> Date \<Rightarrow> error option"

record Site =
  site_ID :: int
  site_Name :: string
  site_Location :: string
  site_DeviceID :: string
  site_IsActive :: bool
  site_CreatedAt :: Time

record FuelMetrics =
  fm_TotalFuelConsumed :: real
  fm_TotalFuelTopped :: real
  fm_FuelConsumedPercent :: real
  fm_FuelToppedPercent :: real

record PowerMetrics =
  pm_TotalGeneratorRuntime :: real
  pm_TotalZesaRuntime :: real
  pm_TotalOfflineTime :: real

text \<open>
  The day of \<open>targetDate\<close> in UTC:
  \<^verbatim>\<open>startOfDay := time.Date(y, m, d, 0, 0, 0, 0, time.UTC)\<close> and
  \<^verbatim>\<open>endOfDay := startOfDay.Add(24 * time.Hour).Add(-1 * time.Nanosecond)\<close>.
\<close>

definition startOfDayUTC :: "Time \<Rightarrow> Time" where
  "startOfDayUTC targetDate = targetDate - targetDate mod (24 * Hour)"

definition endOfDayUTC :: "Time \<Rightarrow> Time" where
  "endOfDayUTC targetDate = startOfDayUTC targetDate + 24 * Hour + (- 1) * Nanosecond"

section \<open>The State-Interval Integrator\<close>

text \<open>The local variables of \<open>calculateStateRuntime\<close>.\<close>

record runtime_vars =
  runtime :: real
  lastTime :: Time
  lastState :: bool
  hasData :: bool

definition runtime_init :: runtime_vars where
  "runtime_init = \<lparr>runtime = 0, lastTime = zeroTime, lastState = False, hasData = False\<rparr>"

text \<open>One turn of the loop \<open>for rows.Next()\<close>.\<close>

definition runtime_step :: "runtime_vars \<Rightarrow> state_row \<Rightarrow> runtime_vars" where
  "runtime_step st row = (case row of
       None \<Rightarrow> st
     | Some (valueStr, timestamp) \<Rightarrow>
         (let currentState = (valueStr = ''1'' \<or> valueStr = ''1.0'');
              st1 = (if hasData st \<and> lastState st
                     then st\<lparr>runtime := runtime st + Hours (Sub timestamp (lastTime st))\<rparr>
                     else st)
          in st1\<lparr>lastTime := timestamp, lastState := currentState, hasData := True\<rparr>))"

text \<open>
  \<open>calculateStateRuntime\<close>: the query, the loop over its rows, and the last ON state
  continued to the end of the window.
\<close>

definition calculateStateRuntime ::
  "DB \<Rightarrow> string \<Rightarrow> string \<Rightarrow> Time \<Rightarrow> Time \<Rightarrow> error + real" where
  "calculateStateRuntime db deviceID sensorName startOfDay endOfDay =
     (case QueryStateReadings db deviceID sensorName startOfDay endOfDay of
        Inl err \<Rightarrow> Inl (''failed to get state readings: '' @ err)
      | Inr rows \<Rightarrow>
         (let st = foldl runtime_step runtime_init rows in
          if hasData st \<and> lastState st \<and> Before (lastTime st) endOfDay
          then Inr (runtime st + Hours (Sub endOfDay (lastTime st)))
          else Inr (runtime st)))"

text \<open>\<open>CalculatePowerRuntimes\<close>: the two runtimes and the offline time of a day.\<close>

definition CalculatePowerRuntimes :: "DB \<Rightarrow> string \<Rightarrow> Time \<Rightarrow> error + PowerMetrics" where
  "CalculatePowerRuntimes db deviceID targetDate =
     (let startOfDay = startOfDayUTC targetDate;
          endOfDay = endOfDayUTC targetDate
      in case calculateStateRuntime db deviceID ''generator_state'' startOfDay endOfDay of
           Inl err \<Rightarrow> Inl (''failed to calculate generator runtime: '' @ err)
         | Inr generatorHours \<Rightarrow>
            (case calculateStateRuntime db deviceID ''zesa_state'' startOfDay endOfDay of
               Inl err \<Rightarrow> Inl (''failed to calculate zesa runtime: '' @ err)
             | Inr zesaHours \<Rightarrow>
                (let totalActiveHours = generatorHours + zesaHours;
                     offlineHours = (if totalActiveHours < 24 then 24 - totalActiveHours else 0.0)
                 in Inr \<lparr>pm_TotalGeneratorRuntime = generatorHours,
                          pm_TotalZesaRuntime = zesaHours,
                          pm_TotalOfflineTime = offlineHours\<rparr>)))"

section \<open>The Fuel-Delta Analyzer\<close>

text \<open>
  \<open>hasGeneratorActivity\<close>: whether the count of ON samples of the generator in the
  window is positive.
\<close>

definition hasGeneratorActivity :: "DB \<Rightarrow> string \<Rightarrow> Time \<Rightarrow> Time \<Rightarrow> error + bool" where
  "hasGeneratorActivity db deviceID startOfDay endOfDay =
     (case QueryGeneratorOnCount db deviceID startOfDay endOfDay of
        Inl err \<Rightarrow> Inl err
      | Inr cnt \<Rightarrow> Inr (cnt > 0))"

text \<open>A reading kept by \<open>CalculateFuelChanges\<close>: \<^verbatim>\<open>struct { Value float64; Time time.Time }\<close>.\<close>

record reading =
  Value :: real
  Time :: Time

text \<open>
  One turn of the loop that reads the rows.  \<open>ParseFloat\<close> stands for
  \<open>strconv.ParseFloat(valueStr, 64)\<close>, \<open>None\<close> being its error; a text it rejects is
  skipped, and so is a row with another sensor name.
\<close>

definition collect_reading ::
  "(string \<Rightarrow> real option) \<Rightarrow> reading list \<times> reading list \<Rightarrow> fuel_row
     \<Rightarrow> reading list \<times> reading list" where
  "collect_reading ParseFloat acc row = (case acc of (levelReadings, volumeReadings) \<Rightarrow>
     (case row of
        None \<Rightarrow> (levelReadings, volumeReadings)
      | Some (valueStr, timestamp, sensorName) \<Rightarrow>
         (case ParseFloat valueStr of
            None \<Rightarrow> (levelReadings, volumeReadings)
          | Some v \<Rightarrow>
             (let r = \<lparr>Value = v, Time = timestamp\<rparr> in
              if sensorName = ''fuel_sensor_level'' then (levelReadings @ [r], volumeReadings)
              else if sensorName = ''fuel_sensor_volume'' then (levelReadings, volumeReadings @ [r])
              else (levelReadings, volumeReadings)))))"

text \<open>
  The body of the loop over the level readings, on the totals
  \<open>(totalConsumedPercent, totalToppedPercent)\<close>; \<open>continue\<close> leaves them as they are.
  \<^verbatim>\<open>change := curr - prev\<close> is a float64 subtraction and \<^verbatim>\<open>+=\<close> a float64 addition:
  each gives the nearest float64.  \<open>math.Abs\<close> and the negation are exact.
\<close>

definition level_step :: "bool \<Rightarrow> real \<Rightarrow> real \<Rightarrow> real \<times> real \<Rightarrow> real \<times> real" where
  "level_step hasGeneratorRuntime prev cur acc = (case acc of
     (totalConsumedPercent, totalToppedPercent) \<Rightarrow>
       (let change = float64_round (cur - prev);
            changePercent = \<bar>change\<bar>
        in if \<not> hasGeneratorRuntime \<and> changePercent < 2.0
             then (totalConsumedPercent, totalToppedPercent)
           else if change > 0
             then (totalConsumedPercent, float64_round (totalToppedPercent + change))
           else if change < 0
             then (float64_round (totalConsumedPercent + - change), totalToppedPercent)
           else (totalConsumedPercent, totalToppedPercent)))"

text \<open>\<^verbatim>\<open>for i := 1; i < len(levelReadings); i++\<close>\<close>

function level_loop :: "bool \<Rightarrow> reading list \<Rightarrow> nat \<Rightarrow> real \<times> real \<Rightarrow> real \<times> real" where
  "level_loop hasGeneratorRuntime levelReadings i acc =
     (if i < length levelReadings
      then level_loop hasGeneratorRuntime levelReadings (i + 1)
             (level_step hasGeneratorRuntime
                (Value (levelReadings ! (i - 1))) (Value (levelReadings ! i)) acc)
      else acc)"
  by pat_completeness auto
termination
  by (relation "measure (\<lambda>(g, rs, i, acc). length rs - i)") auto

declare level_loop.simps [simp del]

text \<open>
  The body of the loop over the volume readings, on the totals
  \<open>(totalConsumedVolume, totalToppedVolume)\<close>.
\<close>

definition volume_step :: "bool \<Rightarrow> real \<Rightarrow> real \<Rightarrow> real \<times> real \<Rightarrow> real \<times> real" where
  "volume_step hasGeneratorRuntime prev cur acc = (case acc of
     (totalConsumedVolume, totalToppedVolume) \<Rightarrow>
       (let change = cur - prev
        in if prev > 0 \<and> (\<not> hasGeneratorRuntime \<and> \<bar>change\<bar> / prev * 100 < 2.0)
             then (totalConsumedVolume, totalToppedVolume)
           else if change > 0 then (totalConsumedVolume, totalToppedVolume + change)
           else if change < 0 then (totalConsumedVolume + - change, totalToppedVolume)
           else (totalConsumedVolume, totalToppedVolume)))"

text \<open>\<^verbatim>\<open>for i := 1; i < len(volumeReadings); i++\<close>\<close>

function volume_loop :: "bool \<Rightarrow> reading list \<Rightarrow> nat \<Rightarrow> real \<times> real \<Rightarrow> real \<times> real" where
  "volume_loop hasGeneratorRuntime volumeReadings i acc =
     (if i < length volumeReadings
      then volume_loop hasGeneratorRuntime volumeReadings (i + 1)
             (volume_step hasGeneratorRuntime
                (Value (volumeReadings ! (i - 1))) (Value (volumeReadings ! i)) acc)
      else acc)"
  by pat_completeness auto
termination
  by (relation "measure (\<lambda>(g, rs, i, acc). length rs - i)") auto

declare volume_loop.simps [simp del]

definition CalculateFuelChanges ::
  "(string \<Rightarrow> real option) \<Rightarrow> DB \<Rightarrow> string \<Rightarrow> Time \<Rightarrow> error + FuelMetrics" where
  "CalculateFuelChanges ParseFloat db deviceID targetDate =
     (let startOfDay = startOfDayUTC targetDate;
          endOfDay = endOfDayUTC targetDate
      in case hasGeneratorActivity db deviceID startOfDay endOfDay of
           Inl err \<Rightarrow> Inl (''failed to check generator activity: '' @ err)
         | Inr hasGeneratorRuntime \<Rightarrow>
            (case QueryFuelReadings db deviceID startOfDay endOfDay of
               Inl err \<Rightarrow> Inl (''failed to get fuel readings: '' @ err)
             | Inr rows \<Rightarrow>
                (case foldl (collect_reading ParseFloat) ([], []) rows of
                   (levelReadings, volumeReadings) \<Rightarrow>
                (case level_loop hasGeneratorRuntime levelReadings 1 (0, 0) of
                   (totalConsumedPercent, totalToppedPercent) \<Rightarrow>
                (case volume_loop hasGeneratorRuntime volumeReadings 1 (0, 0) of
                   (totalConsumedVolume, totalToppedVolume) \<Rightarrow>
                   Inr \<lparr>fm_TotalFuelConsumed = totalConsumedVolume,
                        fm_TotalFuelTopped = totalToppedVolume,
                        fm_FuelConsumedPercent = totalConsumedPercent,
                        fm_FuelToppedPercent = totalToppedPercent\<rparr>)))))"

section \<open>The Per-Site Metrics Calculator\<close>

text \<open>
  \<open>fmt.Sprintf("%.2f", x)\<close>: the decimal with two places nearest to \<open>x\<close>, a tie going
  to the even last digit.
\<close>

definition Sprintf_2f :: "real \<Rightarrow> real" where
  "Sprintf_2f x = real_of_int (round_half_even (x * 100)) / 100"

definition same_key :: "int \<Rightarrow> Date \<Rightarrow> CumulativeReading \<Rightarrow> bool" where
  "same_key siteID date r = (cr_SiteID r = siteID \<and> cr_Date r = date)"

text \<open>
  \<open>CreateOrUpdateCumulativeReading\<close>: \<^verbatim>\<open>INSERT ... ON CONFLICT (site_id, date) DO UPDATE SET ...\<close>
  at the clock reading \<open>now\<close>.  A write that fails leaves the table as it is.  A new row
  takes its id from the sequence of the table; a row in conflict keeps its id, its device
  and its creation time.
\<close>

definition CreateOrUpdateCumulativeReading ::
  "Time \<Rightarrow> DB \<Rightarrow> int \<Rightarrow> string \<Rightarrow> Date \<Rightarrow> FuelMetrics \<Rightarrow> PowerMetrics
     \<Rightarrow> (error + CumulativeReading) \<times> DB" where
  "CreateOrUpdateCumulativeReading now db siteID deviceID date fuelMetrics powerMetrics =
     (case UpsertFault db siteID date of
        Some err \<Rightarrow> (Inl (''failed to create or update cumulative reading: '' @ err), db)
      | None \<Rightarrow>
         (let excluded =
                \<lparr>cr_ID = cumulative_readings_seq db,
                 cr_SiteID = siteID,
                 cr_DeviceID = deviceID,
                 cr_Date = date,
                 cr_TotalFuelConsumed = Sprintf_2f (fm_TotalFuelConsumed fuelMetrics),
                 cr_TotalFuelTopped = Sprintf_2f (fm_TotalFuelTopped fuelMetrics),
                 cr_FuelConsumedPercent = Sprintf_2f (fm_FuelConsumedPercent fuelMetrics),
                 cr_FuelToppedPercent = Sprintf_2f (fm_FuelToppedPercent fuelMetrics),
                 cr_TotalGeneratorRuntime = Sprintf_2f (pm_TotalGeneratorRuntime powerMetrics),
                 cr_TotalZesaRuntime = Sprintf_2f (pm_TotalZesaRuntime powerMetrics),
                 cr_TotalOfflineTime = Sprintf_2f (pm_TotalOfflineTime powerMetrics),
                 cr_CalculatedAt = now,
                 cr_CreatedAt = now\<rparr>;
              do_update = (\<lambda>r. r
                \<lparr>cr_TotalFuelConsumed := cr_TotalFuelConsumed excluded,
                 cr_TotalFuelTopped := cr_TotalFuelTopped excluded,
                 cr_FuelConsumedPercent := cr_FuelConsumedPercent excluded,
                 cr_FuelToppedPercent := cr_FuelToppedPercent excluded,
                 cr_TotalGeneratorRuntime := cr_TotalGeneratorRuntime excluded,
                 cr_TotalZesaRuntime := cr_TotalZesaRuntime excluded,
                 cr_TotalOfflineTime := cr_TotalOfflineTime excluded,
                 cr_CalculatedAt := cr_CalculatedAt excluded\<rparr>)
          in case find (same_key siteID date) (cumulative_readings db) of
               None \<Rightarrow>
                 (Inr excluded,
                  db\<lparr>cumulative_readings := cumulative_readings db @ [excluded],
                     cumulative_readings_seq := cumulative_readings_seq db + 1\<rparr>)
             | Some r \<Rightarrow>
                 (Inr (do_update r),
                  db\<lparr>cumulative_readings :=
                       map (\<lambda>x. if same_key siteID date x then do_update x else x)
                         (cumulative_readings db)\<rparr>)))"

record CumulativeSiteResult =
  sr_SiteID :: int
  sr_SiteName :: string
  sr_DeviceID :: string
  sr_FuelConsumed :: real
  sr_FuelTopped :: real
  sr_FuelConsumedPercent :: real
  sr_FuelToppedPercent :: real
  sr_GeneratorHours :: real
  sr_ZesaHours :: real
  sr_OfflineHours :: real
  sr_Status :: string
  sr_Error :: string
  sr_CalculatedAt :: Time

text \<open>The zero value of the struct: a field that a struct literal leaves out.\<close>

definition zero_CumulativeSiteResult :: CumulativeSiteResult where
  "zero_CumulativeSiteResult =
     \<lparr>sr_SiteID = 0, sr_SiteName = [], sr_DeviceID = [],
      sr_FuelConsumed = 0, sr_FuelTopped = 0, sr_FuelConsumedPercent = 0,
      sr_FuelToppedPercent = 0, sr_GeneratorHours = 0, sr_ZesaHours = 0,
      sr_OfflineHours = 0, sr_Status = [], sr_Error = [], sr_CalculatedAt = zeroTime\<rparr>"

text \<open>The verb \<open>%v\<close> of \<open>fmt\<close> on an error: its message, or \<open><nil>\<close>.\<close>

definition fmt_v :: "error option \<Rightarrow> string" where
  "fmt_v err = (case err of None \<Rightarrow> ''<nil>'' | Some m \<Rightarrow> m)"

definition error_of :: "error + 'a \<Rightarrow> error option" where
  "error_of r = (case r of Inl err \<Rightarrow> Some err | Inr v \<Rightarrow> None)"

text \<open>
  \<open>processSingleSite\<close>.  The two computations only read the store, so the two goroutines
  are run one after the other.  \<open>now\<close> is the reading of the clock.
\<close>

definition processSingleSite ::
  "(string \<Rightarrow> real option) \<Rightarrow> Time \<Rightarrow> DB \<Rightarrow> Site \<Rightarrow> CumulativeReading option \<Rightarrow> Time \<Rightarrow> Date
     \<Rightarrow> CumulativeSiteResult \<times> DB" where
  "processSingleSite ParseFloat now db site existingReading targetDate dateString =
     (let fuel = CalculateFuelChanges ParseFloat db (site_DeviceID site) targetDate;
          power = CalculatePowerRuntimes db (site_DeviceID site) targetDate
      in case (fuel, power) of
           (Inr fuelMetrics, Inr powerMetrics) \<Rightarrow>
             (case CreateOrUpdateCumulativeReading now db (site_ID site) (site_DeviceID site)
                     dateString fuelMetrics powerMetrics of
                (Inl err, db') \<Rightarrow>
                  (zero_CumulativeSiteResult
                     \<lparr>sr_SiteID := site_ID site,
                      sr_SiteName := site_Name site,
                      sr_DeviceID := site_DeviceID site,
                      sr_Status := ''ERROR'',
                      sr_Error := err\<rparr>, db')
              | (Inr saved, db') \<Rightarrow>
                  (let status = (if existingReading \<noteq> None then ''UPDATED'' else ''CREATED'')
                   in (\<lparr>sr_SiteID = site_ID site,
                        sr_SiteName = site_Name site,
                        sr_DeviceID = site_DeviceID site,
                        sr_FuelConsumed = fm_TotalFuelConsumed fuelMetrics,
                        sr_FuelTopped = fm_TotalFuelTopped fuelMetrics,
                        sr_FuelConsumedPercent = fm_FuelConsumedPercent fuelMetrics,
                        sr_FuelToppedPercent = fm_FuelToppedPercent fuelMetrics,
                        sr_GeneratorHours = pm_TotalGeneratorRuntime powerMetrics,
                        sr_ZesaHours = pm_TotalZesaRuntime powerMetrics,
                        sr_OfflineHours = pm_TotalOfflineTime powerMetrics,
                        sr_Status = status,
                        sr_Error = [],
                        sr_CalculatedAt = now\<rparr>, db')))
         | _ \<Rightarrow>
             (zero_CumulativeSiteResult
                \<lparr>sr_SiteID := site_ID site,
                 sr_SiteName := site_Name site,
                 sr_DeviceID := site_DeviceID site,
                 sr_Status := ''ERROR'',
                 sr_Error := ''Calculation error: fuel='' @ fmt_v (error_of fuel)
                               @ '', power='' @ fmt_v (error_of power)\<rparr>, db))"

text \<open>\<open>processBatch\<close>: the sites of a batch in turn; \<open>existingReadings\<close> is the Go map.\<close>

fun processBatch ::
  "(string \<Rightarrow> real option) \<Rightarrow> Time \<Rightarrow> DB \<Rightarrow> Site list \<Rightarrow> (int \<rightharpoonup> CumulativeReading) \<Rightarrow> Time \<Rightarrow> Date
     \<Rightarrow> CumulativeSiteResult list \<times> DB" where
  "processBatch ParseFloat now db [] existingReadings targetDate dateString = ([], db)"
| "processBatch ParseFloat now db (site # sites) existingReadings targetDate dateString =
     (case processSingleSite ParseFloat now db site (existingReadings (site_ID site))
             targetDate dateString of
        (result, db1) \<Rightarrow>
          (case processBatch ParseFloat now db1 sites existingReadings targetDate dateString of
             (results, db2) \<Rightarrow> (result # results, db2)))"

section \<open>The Batch Orchestrator\<close>

text \<open>
  The partition of the site list:
  \<^verbatim>\<open>for i := 0; i < len(sites); i += batchSize { end := i + batchSize; if end > len(sites) { end = len(sites) }; batch := sites[i:end] ... }\<close>.
  The batch size is a positive constant of the code (10 for a day, 20 for a range).
\<close>

function batches_from :: "nat \<Rightarrow> 'a list \<Rightarrow> nat \<Rightarrow> 'a list list" where
  "batches_from batchSize sites i =
     (if i < length sites \<and> 0 < batchSize
      then (let e = (if i + batchSize > length sites then length sites else i + batchSize)
            in take (e - i) (drop i sites) # batches_from batchSize sites (i + batchSize))
      else [])"
  by pat_completeness auto
termination
  by (relation "measure (\<lambda>(b, xs, i). length xs - i)") auto

declare batches_from.simps [simp del]

text \<open>
  The sort of the results, highest key first; the code has it twice, once for each kind
  of result:
  \<^verbatim>\<open>for i := 0; i < len(results)-1; i++ { for j := i + 1; j < len(results); j++ { if results[j].K > results[i].K { results[i], results[j] = results[j], results[i] } } }\<close>.
\<close>

function sort_inner :: "('a \<Rightarrow> real) \<Rightarrow> 'a list \<Rightarrow> nat \<Rightarrow> nat \<Rightarrow> 'a list" where
  "sort_inner key results i j =
     (if j < length results
      then sort_inner key
             (if key (results ! j) > key (results ! i)
              then results[i := results ! j, j := results ! i]
              else results) i (j + 1)
      else results)"
  by pat_completeness auto
termination
  by (relation "measure (\<lambda>(k, rs, i, j). length rs - j)") auto

declare sort_inner.simps [simp del]

function sort_outer :: "('a \<Rightarrow> real) \<Rightarrow> 'a list \<Rightarrow> nat \<Rightarrow> 'a list" where
  "sort_outer key results i =
     (if int i < int (length results) - 1
      then sort_outer key (sort_inner key results i (i + 1)) (i + 1)
      else results)"
  by pat_completeness auto
termination
proof (relation "measure (\<lambda>(k, rs, i). length rs - i)")
  show "wf (measure (\<lambda>(k, rs, i). length rs - i))"
    by simp
next
  fix key :: "'a \<Rightarrow> real" and results :: "'a list" and i :: nat
  assume a: "int i < int (length results) - 1"
  have len: "length (sort_inner key rs i j) = length rs" for rs :: "'a list" and j
  proof (induction key rs i j rule: sort_inner.induct)
    case (1 key results i j)
    show ?case
    proof (cases "j < length results")
      case True
      then show ?thesis
        using "1.IH" by (subst sort_inner.simps) simp
    next
      case False
      then show ?thesis by (subst sort_inner.simps) simp
    qed
  qed
  show "((key, sort_inner key results i (i + 1), i + 1), key, results, i)
      \<in> measure (\<lambda>(k, rs, i). length rs - i)"
    using a by (simp add: len)
qed

declare sort_outer.simps [simp del]

definition sortResultsByFuelConsumed :: "CumulativeSiteResult list \<Rightarrow> CumulativeSiteResult list" where
  "sortResultsByFuelConsumed results = sort_outer sr_FuelConsumed results 0"

text \<open>The batches of a day in turn, each on the store the one before left.\<close>

fun run_batches ::
  "(string \<Rightarrow> real option) \<Rightarrow> Time \<Rightarrow> DB \<Rightarrow> Site list list \<Rightarrow> (int \<rightharpoonup> CumulativeReading) \<Rightarrow> Time
     \<Rightarrow> Date \<Rightarrow> CumulativeSiteResult list list \<times> DB" where
  "run_batches ParseFloat now db [] existingReadings targetDate dateString = ([], db)"
| "run_batches ParseFloat now db (batch # rest) existingReadings targetDate dateString =
     (case processBatch ParseFloat now db batch existingReadings targetDate dateString of
        (batchResults, db1) \<Rightarrow>
          (case run_batches ParseFloat now db1 rest existingReadings targetDate dateString of
             (others, db2) \<Rightarrow> (batchResults # others, db2)))"

text \<open>
  \<open>processSitesInBatches\<close>.  Each batch has its goroutine, and a goroutine appends the
  results of its batch to \<open>allResults\<close> under the mutex when it is done.  \<open>order\<close> lists
  the batches in the order in which they append, a permutation of their indices.  The
  writes of the batches are made in the order of the batches.
\<close>

definition processSitesInBatches ::
  "(string \<Rightarrow> real option) \<Rightarrow> Time \<Rightarrow> nat list \<Rightarrow> DB \<Rightarrow> Site list \<Rightarrow> (int \<rightharpoonup> CumulativeReading)
     \<Rightarrow> Time \<Rightarrow> Date \<Rightarrow> CumulativeSiteResult list \<times> DB" where
  "processSitesInBatches ParseFloat now order db sites existingReadings targetDate dateString =
     (case run_batches ParseFloat now db (batches_from 10 sites 0) existingReadings
             targetDate dateString of
        (batchResults, db') \<Rightarrow>
          (let allResults = concat (map (\<lambda>k. batchResults ! k) order)
           in (sortResultsByFuelConsumed allResults, db')))"

section \<open>The Aggregation Summary Builder\<close>

text \<open>
  \<^verbatim>\<open>multiplier := 1.0; for i := 0; i < decimals; i++ { multiplier *= 10 }\<close>, each product a
  float64.
\<close>

function multiplier_loop :: "int \<Rightarrow> int \<Rightarrow> real \<Rightarrow> real" where
  "multiplier_loop i decimals multiplier =
     (if i < decimals then multiplier_loop (i + 1) decimals (float64_round (multiplier * 10))
      else multiplier)"
  by pat_completeness auto
termination
  by (relation "measure (\<lambda>(i, d, m). nat (d - i))") auto

declare multiplier_loop.simps [simp del]

text \<open>
  \<^verbatim>\<open>return float64(int(val*multiplier+0.5)) / multiplier\<close>: the product, the sum, the
  conversion of the integer to a \<open>float64\<close> and the quotient are float64 operations, each
  giving the nearest float64.  The product and the sum are two operations, each rounded
  by itself, as the amd64 build target computes them.
\<close>

definition roundToDecimal :: "real \<Rightarrow> int \<Rightarrow> real" where
  "roundToDecimal val decimals =
     (let multiplier = multiplier_loop 0 decimals 1.0
      in float64_round
           (float64_round
              (real_of_int (float64_to_int (float64_round (float64_round (val * multiplier) + 0.5))))
            / multiplier))"


text \<open>
  The variables of the two summary functions: the running totals, and the counts of the
  first.
\<close>

record totals =
  v_totalFuelConsumed :: real
  v_totalFuelTopped :: real
  v_totalGeneratorHours :: real
  v_totalZesaHours :: real
  v_totalOfflineHours :: real





section \<open>The range variant\<close>

record DateRange =
  dr_Start :: Date
  dr_End :: Date
  dr_IsRange :: bool

record CumulativeSiteRangeResult =
  rr_SiteID :: int
  rr_SiteName :: string
  rr_DeviceID :: string
  rr_TotalFuelConsumed :: real
  rr_TotalFuelTopped :: real
  rr_TotalGeneratorHours :: real
  rr_TotalZesaHours :: real
  rr_TotalOfflineHours :: real
  rr_ReadingDays :: int
  rr_DateRange :: DateRange

text \<open>
  The one row that the aggregate query of \<open>getSiteRangeData\<close> returns.  Over no row
  \<open>COUNT(*)\<close> is 0, and \<open>SUM\<close>, \<open>MIN\<close> and \<open>MAX\<close> are \<open>NULL\<close>, here \<open>None\<close>.
\<close>

record range_row =
  agg_reading_days :: int
  agg_total_fuel_consumed :: "real option"
  agg_total_fuel_topped :: "real option"
  agg_total_generator_hours :: "real option"
  agg_total_zesa_hours :: "real option"
  agg_total_offline_hours :: "real option"
  agg_first_date :: "Date option"
  agg_last_date :: "Date option"

definition sql_sum :: "real list \<Rightarrow> real option" where
  "sql_sum xs = (if xs = [] then None else Some (sum_list xs))"

fun sql_min :: "Date list \<Rightarrow> Date option" where
  "sql_min [] = None"
| "sql_min (x # xs) = Some (fold min xs x)"

fun sql_max :: "Date list \<Rightarrow> Date option" where
  "sql_max [] = None"
| "sql_max (x # xs) = Some (fold max xs x)"

text \<open>The rows of a site with a date in the window: \<^verbatim>\<open>WHERE site_id = $1 AND date >= $2 AND date <= $3\<close>.\<close>

definition matching_days :: "DB \<Rightarrow> int \<Rightarrow> Date \<Rightarrow> Date \<Rightarrow> CumulativeReading list" where
  "matching_days db siteID startDate endDate =
     filter (\<lambda>r. cr_SiteID r = siteID \<and> startDate \<le> cr_Date r \<and> cr_Date r \<le> endDate)
       (cumulative_readings db)"

definition QueryRangeAggregate :: "DB \<Rightarrow> int \<Rightarrow> Date \<Rightarrow> Date \<Rightarrow> error + range_row" where
  "QueryRangeAggregate db siteID startDate endDate =
     (case RangeQueryFault db siteID startDate endDate of
        Some err \<Rightarrow> Inl err
      | None \<Rightarrow>
         (let rows = matching_days db siteID startDate endDate
          in Inr \<lparr>agg_reading_days = int (length rows),
                  agg_total_fuel_consumed = sql_sum (map cr_TotalFuelConsumed rows),
                  agg_total_fuel_topped = sql_sum (map cr_TotalFuelTopped rows),
                  agg_total_generator_hours = sql_sum (map cr_TotalGeneratorRuntime rows),
                  agg_total_zesa_hours = sql_sum (map cr_TotalZesaRuntime rows),
                  agg_total_offline_hours = sql_sum (map cr_TotalOfflineTime rows),
                  agg_first_date = sql_min (map cr_Date rows),
                  agg_last_date = sql_max (map cr_Date rows)\<rparr>))"

text \<open>
  \<open>getSiteRangeData\<close>; \<open>nil\<close> is \<open>None\<close>.  \<open>QueryRow(...).Scan(...)\<close> gives the error of
  the query, or the error of \<open>Scan\<close>: a \<open>NULL\<close> cannot be read into a \<open>float64\<close> or a
  \<open>string\<close>.
\<close>

definition getSiteRangeData :: "DB \<Rightarrow> Site \<Rightarrow> Date \<Rightarrow> Date \<Rightarrow> CumulativeSiteRangeResult option" where
  "getSiteRangeData db site startDate endDate =
     (case QueryRangeAggregate db (site_ID site) startDate endDate of
        Inl err \<Rightarrow> None
      | Inr row \<Rightarrow>
         (case (agg_total_fuel_consumed row, agg_total_fuel_topped row,
                agg_total_generator_hours row, agg_total_zesa_hours row,
                agg_total_offline_hours row, agg_first_date row, agg_last_date row) of
            (Some totalFuelConsumed, Some totalFuelTopped, Some totalGeneratorHours,
             Some totalZesaHours, Some totalOfflineHours, Some firstDate, Some lastDate) \<Rightarrow>
              (let readingDays = agg_reading_days row in
               if readingDays = 0 then None
               else Some
                 \<lparr>rr_SiteID = site_ID site,
                  rr_SiteName = site_Name site,
                  rr_DeviceID = site_DeviceID site,
                  rr_TotalFuelConsumed = roundToDecimal totalFuelConsumed 1,
                  rr_TotalFuelTopped = roundToDecimal totalFuelTopped 1,
                  rr_TotalGeneratorHours = roundToDecimal totalGeneratorHours 2,
                  rr_TotalZesaHours = roundToDecimal totalZesaHours 2,
                  rr_TotalOfflineHours = roundToDecimal totalOfflineHours 2,
                  rr_ReadingDays = readingDays,
                  rr_DateRange = \<lparr>dr_Start = firstDate, dr_End = lastDate, dr_IsRange = False\<rparr>\<rparr>)
          | _ \<Rightarrow> None))"

fun processSiteRangeBatch :: "DB \<Rightarrow> Site list \<Rightarrow> Date \<Rightarrow> Date \<Rightarrow> CumulativeSiteRangeResult list" where
  "processSiteRangeBatch db [] startDate endDate = []"
| "processSiteRangeBatch db (site # sites) startDate endDate =
     (case getSiteRangeData db site startDate endDate of
        None \<Rightarrow> processSiteRangeBatch db sites startDate endDate
      | Some result \<Rightarrow> result # processSiteRangeBatch db sites startDate endDate)"

definition sortRangeResultsByFuelConsumed ::
  "CumulativeSiteRangeResult list \<Rightarrow> CumulativeSiteRangeResult list" where
  "sortRangeResultsByFuelConsumed results = sort_outer rr_TotalFuelConsumed results 0"

text \<open>
  \<open>getCumulativeReadingsForRange\<close>: batches of 20, each in its goroutine; \<open>order\<close> lists
  the batches in the order in which they append their results.
\<close>

definition getCumulativeReadingsForRange ::
  "nat list \<Rightarrow> DB \<Rightarrow> Site list \<Rightarrow> Date \<Rightarrow> Date \<Rightarrow> CumulativeSiteRangeResult list" where
  "getCumulativeReadingsForRange order db sites startDate endDate =
     (let batchResults =
            map (\<lambda>batch. processSiteRangeBatch db batch startDate endDate)
              (batches_from 20 sites 0);
          allResults = concat (map (\<lambda>k. batchResults ! k) order)
      in sortRangeResultsByFuelConsumed allResults)"

record CumulativeRangeSummary =
  rs_DateRange :: DateRange
  rs_TotalSites :: int
  rs_TotalFuelConsumed :: real
  rs_TotalFuelTopped :: real
  rs_TotalGeneratorHours :: real
  rs_TotalZesaHours :: real
  rs_TotalOfflineHours :: real
  rs_AverageFuelPerSite :: real
  rs_DaysIncluded :: int

text \<open>\<open>calculateDaysDifference\<close>: \<^verbatim>\<open>int(diff.Hours()/24) + 1\<close>, and 1 for equal dates.\<close>

definition calculateDaysDifference :: "Time \<Rightarrow> Time \<Rightarrow> int" where
  "calculateDaysDifference startDate endDate =
     (if Equal startDate endDate then 1
      else (let diff = Sub endDate startDate
            in float64_to_int (Hours diff / 24) + 1))"

definition range_init :: totals where
  "range_init = \<lparr>v_totalFuelConsumed = 0, v_totalFuelTopped = 0, v_totalGeneratorHours = 0,
     v_totalZesaHours = 0, v_totalOfflineHours = 0\<rparr>"

definition range_step :: "totals \<Rightarrow> CumulativeSiteRangeResult \<Rightarrow> totals" where
  "range_step v result =
     v\<lparr>v_totalFuelConsumed := v_totalFuelConsumed v + rr_TotalFuelConsumed result,
       v_totalFuelTopped := v_totalFuelTopped v + rr_TotalFuelTopped result,
       v_totalGeneratorHours := v_totalGeneratorHours v + rr_TotalGeneratorHours result,
       v_totalZesaHours := v_totalZesaHours v + rr_TotalZesaHours result,
       v_totalOfflineHours := v_totalOfflineHours v + rr_TotalOfflineHours result\<rparr>"

definition calculateRangeSummary ::
  "CumulativeSiteRangeResult list \<Rightarrow> Date \<Rightarrow> Date \<Rightarrow> Time \<Rightarrow> Time \<Rightarrow> CumulativeRangeSummary" where
  "calculateRangeSummary results startDate endDate startDateTime endDateTime =
     (let v = foldl range_step range_init results;
          averageFuelPerSite =
            (if length results > 0 then v_totalFuelConsumed v / real (length results) else 0)
      in \<lparr>rs_DateRange = \<lparr>dr_Start = startDate, dr_End = endDate,
                           dr_IsRange = (startDate \<noteq> endDate)\<rparr>,
          rs_TotalSites = int (length results),
          rs_TotalFuelConsumed = roundToDecimal (v_totalFuelConsumed v) 1,
          rs_TotalFuelTopped = roundToDecimal (v_totalFuelTopped v) 1,
          rs_TotalGeneratorHours = roundToDecimal (v_totalGeneratorHours v) 2,
          rs_TotalZesaHours = roundToDecimal (v_totalZesaHours v) 2,
          rs_TotalOfflineHours = roundToDecimal (v_totalOfflineHours v) 2,
          rs_AverageFuelPerSite = roundToDecimal averageFuelPerSite 1,
          rs_DaysIncluded = calculateDaysDifference startDateTime endDateTime\<rparr>)"

section \<open>The specification\<close>

subsection \<open>The walk of the specification\<close>





text \<open>The samples of an answer: the rows that were read.\<close>

definition scanned :: "'a option list \<Rightarrow> 'a list" where
  "scanned rows = List.map_filter (\<lambda>r. r) rows"


subsection \<open>The fuel deltas of the specification\<close>

text \<open>
  The specification walks the consecutive pairs of a sequence, previous and current
  reading, with the delta current minus previous.  With the generator not active a delta
  of the level sequence is discarded when its magnitude is below 2.0, and a delta of the
  volume sequence when the previous reading is above 0 and the magnitude, as a
  percentage of the previous reading, is below 2.0.  A delta that is kept goes to
  ``topped'' when positive and, by its absolute value, to ``consumed'' when negative.
  Here the delta is the difference of the two readings as numbers.
\<close>

definition spec_pairs :: "real list \<Rightarrow> (real \<times> real) list" where
  "spec_pairs xs = zip xs (tl xs)"

definition spec_level_discarded :: "bool \<Rightarrow> real \<times> real \<Rightarrow> bool" where
  "spec_level_discarded active pc = (case pc of (p, c) \<Rightarrow> \<not> active \<and> \<bar>c - p\<bar> < 2)"

text \<open>
  The level sequence as the analyzer computes it: the delta of a pair is the float64
  difference, current minus previous; with the generator not active it is discarded when
  the magnitude of this float64 is below 2.0; the deltas that are kept are added one
  after the other, each sum a float64.
\<close>

definition spec_level_delta :: "real \<times> real \<Rightarrow> real" where
  "spec_level_delta pc = (case pc of (p, c) \<Rightarrow> float64_round (c - p))"

definition spec_delta_discarded :: "bool \<Rightarrow> real \<Rightarrow> bool" where
  "spec_delta_discarded active d = (\<not> active \<and> \<bar>d\<bar> < 2)"

definition spec_level_kept :: "bool \<Rightarrow> real list \<Rightarrow> real list" where
  "spec_level_kept active xs =
     filter (\<lambda>d. \<not> spec_delta_discarded active d) (map spec_level_delta (spec_pairs xs))"

definition spec_float_sum :: "real list \<Rightarrow> real" where
  "spec_float_sum ds = foldl (\<lambda>total d. float64_round (total + d)) 0 ds"

definition spec_level_consumed :: "bool \<Rightarrow> real list \<Rightarrow> real" where
  "spec_level_consumed active xs =
     spec_float_sum (map (\<lambda>d. - d) (filter (\<lambda>d. d < 0) (spec_level_kept active xs)))"

definition spec_level_topped :: "bool \<Rightarrow> real list \<Rightarrow> real" where
  "spec_level_topped active xs =
     spec_float_sum (filter (\<lambda>d. 0 < d) (spec_level_kept active xs))"

definition spec_volume_discarded :: "bool \<Rightarrow> real \<times> real \<Rightarrow> bool" where
  "spec_volume_discarded active pc =
     (case pc of (p, c) \<Rightarrow> \<not> active \<and> p > 0 \<and> \<bar>c - p\<bar> / p * 100 < 2)"

definition spec_consumed :: "(real \<times> real \<Rightarrow> bool) \<Rightarrow> real list \<Rightarrow> real" where
  "spec_consumed discarded xs =
     sum_list (map (\<lambda>(p, c). p - c)
       (filter (\<lambda>(p, c). c < p) (filter (\<lambda>pc. \<not> discarded pc) (spec_pairs xs))))"

definition spec_topped :: "(real \<times> real \<Rightarrow> bool) \<Rightarrow> real list \<Rightarrow> real" where
  "spec_topped discarded xs =
     sum_list (map (\<lambda>(p, c). c - p)
       (filter (\<lambda>(p, c). p < c) (filter (\<lambda>pc. \<not> discarded pc) (spec_pairs xs))))"

text \<open>The sequence of a sensor: the values of its rows, in the order of the rows.\<close>

definition spec_values :: "(string \<Rightarrow> real option) \<Rightarrow> string \<Rightarrow> fuel_row list \<Rightarrow> real list" where
  "spec_values ParseFloat sensor rows =
     List.map_filter
       (\<lambda>row. case row of
            None \<Rightarrow> None
          | Some (valueStr, timestamp, sensorName) \<Rightarrow>
              if sensorName = sensor then ParseFloat valueStr else None)
       rows"

subsection \<open>The sums of the specification\<close>

text \<open>The results that are not errors, and the sum of a field over a list of results.\<close>

definition spec_ok :: "CumulativeSiteResult list \<Rightarrow> CumulativeSiteResult list" where
  "spec_ok results = filter (\<lambda>r. sr_Status r \<noteq> ''ERROR'') results"

definition spec_sum :: "('a \<Rightarrow> real) \<Rightarrow> 'a list \<Rightarrow> real" where
  "spec_sum field results = sum_list (map field results)"

text \<open>A day as an instant: midnight UTC of the day with this number.\<close>

definition midnight :: "Date \<Rightarrow> Time" where
  "midnight d = d * (24 * Hour)"

subsection \<open>The sites and the sums of a range\<close>

text \<open>
  The sites that a range result holds: those whose aggregate query is answered and
  matches at least one day.  The aggregated value of a column for a site: the sum over
  the matching days, as the query returns it, before any rounding.
\<close>

definition spec_range_sites :: "DB \<Rightarrow> Date \<Rightarrow> Date \<Rightarrow> Site list \<Rightarrow> Site list" where
  "spec_range_sites db startDate endDate sites =
     filter (\<lambda>site. RangeQueryFault db (site_ID site) startDate endDate = None
                \<and> matching_days db (site_ID site) startDate endDate \<noteq> []) sites"

definition spec_site_sum :: "(CumulativeReading \<Rightarrow> real) \<Rightarrow> DB \<Rightarrow> Date \<Rightarrow> Date \<Rightarrow> Site \<Rightarrow> real" where
  "spec_site_sum column db startDate endDate site =
     sum_list (map column (matching_days db (site_ID site) startDate endDate))"

text \<open>An order of appending: each of the \<open>n\<close> batches once.\<close>

definition append_order :: "nat list \<Rightarrow> nat \<Rightarrow> bool" where
  "append_order order n = (mset order = mset [0..<n])"

section \<open>Stores and sites of the examples\<close>

text \<open>
  A store with four devices.  \<open>gen-A\<close>: generator ON from 00:00 to 14:00, grid ON from
  00:00 to 15:00.  \<open>gen-B\<close>: generator ON at 00:00, OFF at 02:00, a row that cannot be
  read, ON at 20:00.  \<open>idle-C\<close>: generator and grid OFF; levels 50, 48, 53 and volumes
  0, 1, 100, 101, 90, with a row that does not parse and a row of another sensor.
  \<open>down-D\<close>: its queries fail.  The table holds rows of the sites 1, 2 and 5 for
  2024-01-01 and 2024-01-02 (the days 19723 and 19724); the aggregate query of site 4
  fails.
\<close>

definition example_ParseFloat :: "string \<Rightarrow> real option" where
  "example_ParseFloat v = map_of
     [(''50'', 50), (''48'', 48), (''53'', 53), (''0'', 0), (''1'', 1), (''100'', 100),
      (''101'', 101), (''90'', 90), (''21.5'', 21.5)] v"

definition example_reading ::
  "int \<Rightarrow> int \<Rightarrow> Date \<Rightarrow> real \<Rightarrow> real \<Rightarrow> real \<Rightarrow> CumulativeReading" where
  "example_reading rid site day consumed gen zesa =
     \<lparr>cr_ID = rid, cr_SiteID = site, cr_DeviceID = ''dev'', cr_Date = day,
      cr_TotalFuelConsumed = consumed, cr_TotalFuelTopped = 0,
      cr_FuelConsumedPercent = 0, cr_FuelToppedPercent = 0,
      cr_TotalGeneratorRuntime = gen, cr_TotalZesaRuntime = zesa,
      cr_TotalOfflineTime = 24 - gen - zesa,
      cr_CalculatedAt = midnight 19725, cr_CreatedAt = midnight 19725\<rparr>"

definition example_db :: DB where
  "example_db =
     \<lparr>QueryStateReadings = (\<lambda>deviceID sensorName s e.
          if deviceID = ''gen-A'' \<and> sensorName = ''generator_state''
            then Inr [Some (''1'', s), Some (''0'', s + 14 * Hour)]
          else if deviceID = ''gen-A'' \<and> sensorName = ''zesa_state''
            then Inr [Some (''1'', s), Some (''0'', s + 15 * Hour)]
          else if deviceID = ''gen-B'' \<and> sensorName = ''generator_state''
            then Inr [Some (''1'', s), Some (''0'', s + 2 * Hour), None,
                      Some (''1.0'', s + 20 * Hour)]
          else if deviceID = ''idle-C''
            then Inr [Some (''0'', s)]
          else if deviceID = ''down-D''
            then Inl ''connection refused''
          else Inr []),
      QueryGeneratorOnCount = (\<lambda>deviceID s e.
          if deviceID = ''gen-A'' then Inr 1
          else if deviceID = ''gen-B'' then Inr 2
          else if deviceID = ''down-D'' then Inl ''connection refused''
          else Inr 0),
      QueryFuelReadings = (\<lambda>deviceID s e.
          if deviceID = ''idle-C''
            then Inr [Some (''50'', s, ''fuel_sensor_level''),
                      Some (''0'', s, ''fuel_sensor_volume''),
                      Some (''1'', s + Hour, ''fuel_sensor_volume''),
                      Some (''48'', s + 2 * Hour, ''fuel_sensor_level''),
                      Some (''n/a'', s + 3 * Hour, ''fuel_sensor_level''),
                      None,
                      Some (''100'', s + 4 * Hour, ''fuel_sensor_volume''),
                      Some (''21.5'', s + 5 * Hour, ''fuel_sensor_temperature''),
                      Some (''101'', s + 6 * Hour, ''fuel_sensor_volume''),
                      Some (''53'', s + 7 * Hour, ''fuel_sensor_level''),
                      Some (''90'', s + 8 * Hour, ''fuel_sensor_volume'')]
          else if deviceID = ''down-D'' then Inl ''connection refused''
          else Inr []),
      cumulative_readings =
        [example_reading 1 1 19723 0.04 1 2,
         example_reading 2 2 19723 0.02 0 24,
         example_reading 3 2 19724 0.02 0 24,
         example_reading 4 5 19700 7 3 4],
      cumulative_readings_seq = 5,
      UpsertFault = (\<lambda>siteID date. None),
      RangeQueryFault = (\<lambda>siteID startDate endDate.
          if siteID = 4 then Some ''connection refused'' else None)\<rparr>"

text \<open>The same store when the aggregate query of site 2 fails and the others are answered.\<close>

definition example_db_down :: DB where
  "example_db_down = example_db\<lparr>RangeQueryFault := (\<lambda>siteID startDate endDate.
     if siteID = 2 then Some ''timeout'' else None)\<rparr>"

definition example_site :: "int \<Rightarrow> string \<Rightarrow> Site" where
  "example_site n device =
     \<lparr>site_ID = n, site_Name = ''Site'', site_Location = ''Harare'', site_DeviceID = device,
      site_IsActive = True, site_CreatedAt = midnight 19000\<rparr>"


section \<open>Definitions for the proofs\<close>


text \<open>Two stores that give the same answers and the same faults; their tables may differ.\<close>

definition same_answers :: "DB \<Rightarrow> DB \<Rightarrow> bool" where
  "same_answers db db' =
     (QueryStateReadings db' = QueryStateReadings db
      \<and> QueryGeneratorOnCount db' = QueryGeneratorOnCount db
      \<and> QueryFuelReadings db' = QueryFuelReadings db
      \<and> UpsertFault db' = UpsertFault db
      \<and> RangeQueryFault db' = RangeQueryFault db)"

section \<open>Properties\<close>

lemma Hours_exact: "Hours d = real_of_int d / 3600000000000"
proof -
  have "d sdiv Hour * Hour + d smod Hour = d"
    by (rule sdiv_mult_smod_eq)
  then have "real_of_int d = real_of_int (d sdiv Hour) * 3600000000000 + real_of_int (d smod Hour)"
    by (metis Hour_def of_int_add of_int_mult of_int_numeral)
  then show ?thesis
    by (simp add: Hours_def Let_def field_simps)
qed

lemma Sub_exact:
  "minDuration \<le> t - u \<Longrightarrow> t - u \<le> maxDuration \<Longrightarrow> Sub t u = t - u"
  by (simp add: Sub_def Let_def)

subsection \<open>Rounding to the nearest float64\<close>

lemma pow2_powr: "pow2 e = 2 powr (real_of_int e)"
proof (cases "0 \<le> e")
  case True
  then have "real_of_int e = real (nat e)" by simp
  then have "2 powr (real_of_int e) = 2 ^ nat e"
    by (simp only: powr_realpow zero_less_numeral)
  with True show ?thesis
    by (simp add: pow2_def)
next
  case False
  then have "- real_of_int e = real (nat (- e))" by simp
  then have "2 powr (- real_of_int e) = 2 ^ nat (- e)"
    by (simp only: powr_realpow zero_less_numeral)
  moreover have "2 powr (real_of_int e) = 1 / 2 powr (- real_of_int e)"
    by (simp add: powr_minus_divide)
  ultimately show ?thesis
    using False by (simp add: pow2_def)
qed

lemma pow2_pos [simp]: "0 < pow2 e"
  by (simp add: pow2_powr)

lemma pow2_add: "pow2 (a + b) = pow2 a * pow2 b"
  by (simp add: pow2_powr powr_add)

lemma pow2_mono: "a \<le> b \<Longrightarrow> pow2 a \<le> pow2 b"
  by (simp add: pow2_powr)

lemma pow2_less_iff: "(pow2 a < pow2 b) = (a < b)"
  by (simp add: pow2_powr)

lemma pow2_nat: "0 \<le> e \<Longrightarrow> pow2 e = 2 ^ nat e"
  by (simp add: pow2_def)

lemma exp_search_range:
  "e - int n \<le> exp_search n e a \<and> exp_search n e a \<le> e
   \<and> (pow2 (exp_search n e a) \<le> a \<or> exp_search n e a = e - int n)"
proof (induction n arbitrary: e)
  case 0
  show ?case by simp
next
  case (Suc n)
  show ?case
    using Suc.IH [of "e - 1"] by auto
qed

lemma exp_search_found:
  "e0 \<le> e \<Longrightarrow> e - int n \<le> e0 \<Longrightarrow> pow2 e0 \<le> a \<Longrightarrow> a < pow2 (e0 + 1) \<Longrightarrow>
   exp_search n e a = e0"
proof (induction n arbitrary: e)
  case 0
  then show ?case by simp
next
  case (Suc n)
  show ?case
  proof (cases "e = e0")
    case True
    with Suc.prems show ?thesis by simp
  next
    case False
    with Suc.prems have lt: "e0 + 1 \<le> e" by simp
    then have "pow2 (e0 + 1) \<le> pow2 e" by (rule pow2_mono)
    with Suc.prems have "\<not> pow2 e \<le> a" by simp
    moreover have "exp_search n (e - 1) a = e0"
      using Suc.prems lt by (intro Suc.IH) simp_all
    ultimately show ?thesis by simp
  qed
qed

lemma float64_exponent_eq:
  "pow2 e \<le> \<bar>x\<bar> \<Longrightarrow> \<bar>x\<bar> < pow2 (e + 1) \<Longrightarrow> - 1022 \<le> e \<Longrightarrow> e \<le> 1023 \<Longrightarrow>
   float64_exponent x = e"
  unfolding float64_exponent_def by (rule exp_search_found) simp_all

lemma float64_exponent_range:
  "- 1022 \<le> float64_exponent x \<and> float64_exponent x \<le> 1023
   \<and> (pow2 (float64_exponent x) \<le> \<bar>x\<bar> \<or> float64_exponent x = - 1022)"
  using exp_search_range [of 1023 2045 "\<bar>x\<bar>"] by (simp add: float64_exponent_def)

lemma round_half_even_of_int [simp]: "round_half_even (real_of_int m) = m"
  by (simp add: round_half_even_def)



text \<open>A value \<open>k * 2^j\<close> with \<open>|k| < 2^53\<close> is a float64: rounding leaves it.\<close>

lemma float64_round_dyadic:
  assumes "\<bar>k\<bar> < 2 ^ 53" and "- 1074 \<le> j"
  shows "float64_round (real_of_int k * pow2 j) = real_of_int k * pow2 j"
proof -
  let ?x = "real_of_int k * pow2 j"
  let ?e = "float64_exponent ?x"
  have le: "?e - 52 \<le> j"
  proof (cases "pow2 ?e \<le> \<bar>?x\<bar>")
    case True
    have "\<bar>?x\<bar> = real_of_int \<bar>k\<bar> * pow2 j"
      by (simp add: abs_mult abs_of_pos)
    also have "\<dots> < 2 ^ 53 * pow2 j"
      using assms(1) by (simp add: of_int_less_numeral_power_cancel_iff)
    also have "\<dots> = pow2 (53 + j)"
      by (simp add: pow2_add pow2_nat)
    finally have "pow2 ?e < pow2 (53 + j)"
      using True by simp
    then show ?thesis
      by (simp add: pow2_less_iff)
  next
    case False
    then have "?e = - 1022"
      using float64_exponent_range [of ?x] by simp
    with assms(2) show ?thesis by simp
  qed
  define n where "n = nat (j - (?e - 52))"
  define u where "u = pow2 (?e - 52)"
  have u: "0 < u" by (simp add: u_def)
  have j: "j = (?e - 52) + int n"
    using le by (simp add: n_def)
  have "pow2 j = pow2 ((?e - 52) + int n)"
    using j by simp
  also have "\<dots> = u * 2 ^ n"
    by (simp only: pow2_add u_def) (simp add: pow2_nat)
  finally have pj: "pow2 j = u * 2 ^ n" .
  have "real_of_int k * pow2 j / u = real_of_int k * (u * 2 ^ n) / u"
    by (simp only: pj)
  also have "\<dots> = real_of_int (k * 2 ^ n)"
    using u by simp
  finally have q: "real_of_int k * pow2 j / u = real_of_int (k * 2 ^ n)" .
  have "float64_round ?x = real_of_int (round_half_even (?x / u)) * u"
    by (simp add: float64_round_def Let_def u_def)
  also have "\<dots> = real_of_int (k * 2 ^ n) * u"
    by (simp only: q round_half_even_of_int)
  also have "\<dots> = real_of_int k * (u * 2 ^ n)"
    by simp
  also have "\<dots> = ?x"
    by (simp only: pj)
  finally show ?thesis .
qed

lemma float64_round_int:
  "\<bar>k\<bar> < 2 ^ 53 \<Longrightarrow> float64_round (real_of_int k) = real_of_int k"
  using float64_round_dyadic [of k 0] by (simp add: pow2_def)

lemma float64_round_half:
  "\<bar>k\<bar> < 2 ^ 53 \<Longrightarrow> float64_round (real_of_int k / 2) = real_of_int k / 2"
  using float64_round_dyadic [of k "- 1"] by (simp add: pow2_def)

lemma float64_round_eval:
  "pow2 e \<le> \<bar>x\<bar> \<Longrightarrow> \<bar>x\<bar> < pow2 (e + 1) \<Longrightarrow> - 1022 \<le> e \<Longrightarrow> e \<le> 1023 \<Longrightarrow>
   float64_round x = real_of_int (round_half_even (x / pow2 (e - 52))) * pow2 (e - 52)"
  by (simp add: float64_round_def Let_def float64_exponent_eq)

lemma float64_round_0 [simp]: "float64_round 0 = 0"
  using float64_round_int [of 0] by simp

lemma float64_round_1 [simp]: "float64_round 1 = 1"
  using float64_round_int [of 1] by simp

lemma float64_round_numeral:
  "(numeral n :: int) < 2 ^ 53 \<Longrightarrow> float64_round (numeral n) = numeral n"
  using float64_round_int [of "numeral n"] by simp

lemma float64_round_neg_numeral:
  "(numeral n :: int) < 2 ^ 53 \<Longrightarrow> float64_round (- numeral n) = - numeral n"
  using float64_round_int [of "- numeral n"] by simp


lemma float64_round_one_half [simp]: "float64_round (1 / 2) = 1 / 2"
  using float64_round_half [of 1] by simp


subsection \<open>The integrator follows the walk of the specification\<close>

lemma scanned_Nil [simp]: "scanned [] = []"
  by (simp add: scanned_def map_filter_simps)

lemma scanned_Cons [simp]:
  "scanned (r # rows) = (case r of None \<Rightarrow> scanned rows | Some x \<Rightarrow> x # scanned rows)"
  by (simp add: scanned_def map_filter_simps split: option.splits)








lemma calculateStateRuntime_no_samples:
  "QueryStateReadings db deviceID sensorName startOfDay endOfDay = Inr [] \<Longrightarrow>
   calculateStateRuntime db deviceID sensorName startOfDay endOfDay = Inr 0"
  by (simp add: calculateStateRuntime_def runtime_init_def)



subsection \<open>Offline time\<close>



subsection \<open>The fuel deltas\<close>

lemma spec_pairs_nth:
  assumes "1 \<le> i" "i < length xs"
  shows "drop (i - 1) (spec_pairs xs) = (xs ! (i - 1), xs ! i) # drop i (spec_pairs xs)"
proof -
  have len: "i - 1 < length (spec_pairs xs)"
    using assms by (simp add: spec_pairs_def)
  have "spec_pairs xs ! (i - 1) = (xs ! (i - 1), xs ! i)"
    using assms by (simp add: spec_pairs_def nth_tl)
  with Cons_nth_drop_Suc [OF len] assms(1) show ?thesis
    by simp
qed

lemma spec_pairs_end: "length xs \<le> i \<Longrightarrow> drop (i - 1) (spec_pairs xs) = []"
  by (simp add: spec_pairs_def)

lemma level_loop_foldl:
  "1 \<le> i \<Longrightarrow> level_loop g rs i acc =
     foldl (\<lambda>a (p, c). level_step g p c a) acc (drop (i - 1) (spec_pairs (map Value rs)))"
proof (induction g rs i acc rule: level_loop.induct)
  case (1 g rs i acc)
  show ?case
  proof (cases "i < length rs")
    case True
    have "level_loop g rs i acc =
        level_loop g rs (i + 1) (level_step g (Value (rs ! (i - 1))) (Value (rs ! i)) acc)"
      using True by (subst level_loop.simps) simp
    also have "\<dots> = foldl (\<lambda>a (p, c). level_step g p c a)
        (level_step g (Value (rs ! (i - 1))) (Value (rs ! i)) acc)
        (drop i (spec_pairs (map Value rs)))"
      using "1.IH" [OF True] by simp
    also have "\<dots> = foldl (\<lambda>a (p, c). level_step g p c a) acc
        (drop (i - 1) (spec_pairs (map Value rs)))"
      using spec_pairs_nth [of i "map Value rs"] True "1.prems" by simp
    finally show ?thesis .
  next
    case False
    then show ?thesis
      by (subst level_loop.simps) (simp add: spec_pairs_def)
  qed
qed

lemma volume_loop_foldl:
  "1 \<le> i \<Longrightarrow> volume_loop g rs i acc =
     foldl (\<lambda>a (p, c). volume_step g p c a) acc (drop (i - 1) (spec_pairs (map Value rs)))"
proof (induction g rs i acc rule: volume_loop.induct)
  case (1 g rs i acc)
  show ?case
  proof (cases "i < length rs")
    case True
    have "volume_loop g rs i acc =
        volume_loop g rs (i + 1) (volume_step g (Value (rs ! (i - 1))) (Value (rs ! i)) acc)"
      using True by (subst volume_loop.simps) simp
    also have "\<dots> = foldl (\<lambda>a (p, c). volume_step g p c a)
        (volume_step g (Value (rs ! (i - 1))) (Value (rs ! i)) acc)
        (drop i (spec_pairs (map Value rs)))"
      using "1.IH" [OF True] by simp
    also have "\<dots> = foldl (\<lambda>a (p, c). volume_step g p c a) acc
        (drop (i - 1) (spec_pairs (map Value rs)))"
      using spec_pairs_nth [of i "map Value rs"] True "1.prems" by simp
    finally show ?thesis .
  next
    case False
    then show ?thesis
      by (subst volume_loop.simps) (simp add: spec_pairs_def)
  qed
qed

text \<open>The sums of the kept deltas of a list of pairs.\<close>

lemma level_step_spec:
  "level_step g p c (x, y) =
     (if spec_delta_discarded g (spec_level_delta (p, c)) then (x, y)
      else if 0 < spec_level_delta (p, c) then (x, float64_round (y + spec_level_delta (p, c)))
      else if spec_level_delta (p, c) < 0
        then (float64_round (x + - spec_level_delta (p, c)), y)
      else (x, y))"
  by (simp add: level_step_def spec_level_delta_def spec_delta_discarded_def Let_def)

lemma volume_step_spec:
  "volume_step g p c (x, y) =
     (x + (if \<not> spec_volume_discarded g (p, c) \<and> c < p then p - c else 0),
      y + (if \<not> spec_volume_discarded g (p, c) \<and> p < c then c - p else 0))"
  by (simp add: volume_step_def spec_volume_discarded_def Let_def)

lemma foldl_level_step:
  "foldl (\<lambda>a (p, c). level_step g p c a) (x, y) ps =
     (foldl (\<lambda>total d. float64_round (total + d)) x
        (map (\<lambda>d. - d) (filter (\<lambda>d. d < 0)
           (filter (\<lambda>d. \<not> spec_delta_discarded g d) (map spec_level_delta ps)))),
      foldl (\<lambda>total d. float64_round (total + d)) y
        (filter (\<lambda>d. 0 < d)
           (filter (\<lambda>d. \<not> spec_delta_discarded g d) (map spec_level_delta ps))))"
proof (induction ps arbitrary: x y)
  case Nil
  show ?case by simp
next
  case (Cons pc ps)
  obtain p c where pc: "pc = (p, c)" by (cases pc)
  show ?case
    by (simp add: pc level_step_spec Cons.IH)
qed

lemma foldl_volume_step:
  "foldl (\<lambda>a (p, c). volume_step g p c a) (x, y) ps =
     (x + sum_list (map (\<lambda>(p, c). p - c)
            (filter (\<lambda>(p, c). c < p) (filter (\<lambda>pc. \<not> spec_volume_discarded g pc) ps))),
      y + sum_list (map (\<lambda>(p, c). c - p)
            (filter (\<lambda>(p, c). p < c) (filter (\<lambda>pc. \<not> spec_volume_discarded g pc) ps))))"
proof (induction ps arbitrary: x y)
  case Nil
  show ?case by simp
next
  case (Cons pc ps)
  obtain p c where pc: "pc = (p, c)" by (cases pc)
  show ?case
    by (simp add: pc volume_step_spec Cons.IH)
qed

lemma level_loop_spec:
  "level_loop g rs 1 (0, 0) =
     (spec_level_consumed g (map Value rs), spec_level_topped g (map Value rs))"
  by (simp add: level_loop_foldl foldl_level_step spec_level_consumed_def
      spec_level_topped_def spec_level_kept_def spec_float_sum_def)

lemma spec_level_example:
  "spec_level_consumed False [50, 48, 53] = 2" "spec_level_topped False [50, 48, 53] = 5"
  by (simp_all add: spec_level_consumed_def spec_level_topped_def spec_level_kept_def
      spec_float_sum_def spec_pairs_def spec_level_delta_def spec_delta_discarded_def
      float64_round_numeral float64_round_neg_numeral)

lemma volume_loop_spec:
  "volume_loop g rs 1 (0, 0) =
     (spec_consumed (spec_volume_discarded g) (map Value rs),
      spec_topped (spec_volume_discarded g) (map Value rs))"
  by (simp add: volume_loop_foldl foldl_volume_step spec_consumed_def spec_topped_def)

lemma spec_values_Nil [simp]: "spec_values PF sensor [] = []"
  by (simp add: spec_values_def map_filter_simps)

lemma spec_values_Cons:
  "spec_values PF sensor (row # rows) =
     (case row of
        None \<Rightarrow> spec_values PF sensor rows
      | Some (valueStr, timestamp, sensorName) \<Rightarrow>
          (if sensorName = sensor
           then (case PF valueStr of None \<Rightarrow> spec_values PF sensor rows
                 | Some v \<Rightarrow> v # spec_values PF sensor rows)
           else spec_values PF sensor rows))"
  by (simp add: spec_values_def map_filter_simps split: option.splits prod.splits)

lemma collect_readings_values:
  "foldl (collect_reading PF) (ls, vs) rows = (ls', vs') \<Longrightarrow>
     map Value ls' = map Value ls @ spec_values PF ''fuel_sensor_level'' rows
     \<and> map Value vs' = map Value vs @ spec_values PF ''fuel_sensor_volume'' rows"
proof (induction rows arbitrary: ls vs)
  case Nil
  then show ?case by simp
next
  case (Cons row rows)
  obtain ls1 vs1 where step: "collect_reading PF (ls, vs) row = (ls1, vs1)"
    by (cases "collect_reading PF (ls, vs) row")
  with Cons.prems have "foldl (collect_reading PF) (ls1, vs1) rows = (ls', vs')"
    by simp
  from Cons.IH [OF this] have IH:
    "map Value ls' = map Value ls1 @ spec_values PF ''fuel_sensor_level'' rows"
    "map Value vs' = map Value vs1 @ spec_values PF ''fuel_sensor_volume'' rows"
    by simp_all
  have "map Value ls1 @ spec_values PF ''fuel_sensor_level'' rows =
          map Value ls @ spec_values PF ''fuel_sensor_level'' (row # rows)
      \<and> map Value vs1 @ spec_values PF ''fuel_sensor_volume'' rows =
          map Value vs @ spec_values PF ''fuel_sensor_volume'' (row # rows)"
    using step
    by (auto simp: collect_reading_def spec_values_Cons Let_def
        split: option.splits prod.splits if_splits)
  with IH show ?case by simp
qed

lemma CalculateFuelChanges_spec:
  assumes "hasGeneratorActivity db deviceID (startOfDayUTC targetDate) (endOfDayUTC targetDate)
             = Inr active"
    and "QueryFuelReadings db deviceID (startOfDayUTC targetDate) (endOfDayUTC targetDate)
             = Inr rows"
  shows "CalculateFuelChanges PF db deviceID targetDate =
     Inr \<lparr>fm_TotalFuelConsumed =
            spec_consumed (spec_volume_discarded active) (spec_values PF ''fuel_sensor_volume'' rows),
          fm_TotalFuelTopped =
            spec_topped (spec_volume_discarded active) (spec_values PF ''fuel_sensor_volume'' rows),
          fm_FuelConsumedPercent =
            spec_level_consumed active (spec_values PF ''fuel_sensor_level'' rows),
          fm_FuelToppedPercent =
            spec_level_topped active (spec_values PF ''fuel_sensor_level'' rows)\<rparr>"
proof -
  obtain ls vs where c: "foldl (collect_reading PF) ([], []) rows = (ls, vs)"
    by (cases "foldl (collect_reading PF) ([], []) rows")
  from collect_readings_values [OF c] have
    v: "map Value ls = spec_values PF ''fuel_sensor_level'' rows"
       "map Value vs = spec_values PF ''fuel_sensor_volume'' rows"
    by simp_all
  show ?thesis
    using assms c
    by (simp add: CalculateFuelChanges_def Let_def level_loop_spec volume_loop_spec v
        del: One_nat_def)
qed

text \<open>
  The readings 0.4 and 2.4 as \<open>strconv.ParseFloat\<close> gives them, the nearest float64 to
  each decimal, and their float64 difference: the exact difference is \<open>2 - 2^-53\<close>, half
  way between two float64 values, and the subtraction gives 2.  The readings 0.3 and 2.3:
  the float64 difference is \<open>2 - 2^-52\<close>.
\<close>

lemma float64_round_0_4: "float64_round (2 / 5) = 3602879701896397 / 9007199254740992"
  by (subst float64_round_eval [of "- 2"]) (simp_all add: pow2_def round_half_even_def)

lemma float64_round_2_4: "float64_round (12 / 5) = 5404319552844595 / 2251799813685248"
  by (subst float64_round_eval [of 1]) (simp_all add: pow2_def round_half_even_def)

lemma float64_sub_2_4_0_4:
  "5404319552844595 / 2251799813685248 - 3602879701896397 / 9007199254740992 =
     (18014398509481983 / 9007199254740992 :: real)"
  "float64_round (18014398509481983 / 9007199254740992) = 2"
  by simp (subst float64_round_eval [of 0], simp_all add: pow2_def round_half_even_def)

lemma float64_round_0_3: "float64_round (3 / 10) = 5404319552844595 / 18014398509481984"
  by (subst float64_round_eval [of "- 2"]) (simp_all add: pow2_def round_half_even_def)

lemma float64_round_2_3: "float64_round (23 / 10) = 2589569785738035 / 1125899906842624"
  by (subst float64_round_eval [of 1]) (simp_all add: pow2_def round_half_even_def)

lemma float64_sub_2_3_0_3:
  "2589569785738035 / 1125899906842624 - 5404319552844595 / 18014398509481984 =
     (36028797018963965 / 18014398509481984 :: real)"
  "float64_round (36028797018963965 / 18014398509481984) = 9007199254740991 / 4503599627370496"
  by simp (subst float64_round_eval [of 0], simp_all add: pow2_def round_half_even_def)

text \<open>
  The readings 0.3 and 2.3, two decimals that are 2.0 apart: the delta that the code
  computes is below 2.0 and is discarded.
\<close>

lemma level_step_0_3_2_3:
  "level_step False (5404319552844595 / 18014398509481984)
     (2589569785738035 / 1125899906842624) (x, y) = (x, y)"
  by (simp add: level_step_def Let_def float64_sub_2_3_0_3)

text \<open>
  Claim C3, as amended.  In the level sequence the delta that the code computes for
  two consecutive readings is their \<open>float64\<close> difference, current minus previous.  With
  the generator not active that day the delta is discarded if and only if the magnitude of
  this \<open>float64\<close> is strictly below 2.0 (a computed delta of magnitude exactly 2.0 is
  kept); a delta that is kept is added to ``topped'' when positive and, negated, to
  ``consumed'' when negative, each sum a \<open>float64\<close>; the percentage totals of
  \<open>CalculateFuelChanges\<close> are these sums.  For two readings whose difference is a
  \<open>float64\<close>, so that the subtraction is exact, the delta is discarded if and only if
  the magnitude of the difference is strictly below 2.0.  The level sequence 50, 48, 53
  gives consumed 2 and topped 5.
\<close>

theorem level_noise_gate:
  assumes "hasGeneratorActivity db deviceID (startOfDayUTC targetDate) (endOfDayUTC targetDate)
             = Inr False"
    and "QueryFuelReadings db deviceID (startOfDayUTC targetDate) (endOfDayUTC targetDate)
             = Inr rows"
  shows "(\<exists>m. CalculateFuelChanges PF db deviceID targetDate = Inr m
        \<and> fm_FuelConsumedPercent m =
            spec_level_consumed False (spec_values PF ''fuel_sensor_level'' rows)
        \<and> fm_FuelToppedPercent m =
            spec_level_topped False (spec_values PF ''fuel_sensor_level'' rows))
     \<and> spec_delta_discarded False d = (\<bar>d\<bar> < 2)
     \<and> level_step False p c (x, y) =
         (if \<bar>float64_round (c - p)\<bar> < 2 then (x, y)
          else if 0 < float64_round (c - p)
            then (x, float64_round (y + float64_round (c - p)))
          else (float64_round (x + - float64_round (c - p)), y))
     \<and> (float64_round (c - p) = c - p \<longrightarrow>
          level_step False p c (x, y) =
            (if \<bar>c - p\<bar> < 2 then (x, y)
             else if p < c then (x, float64_round (y + (c - p)))
             else (float64_round (x + (p - c)), y)))
     \<and> level_step False 50 48 (x, y) = (float64_round (x + 2), y)
     \<and> level_step False 48 50 (x, y) = (x, float64_round (y + 2))
     \<and> level_loop False
          [\<lparr>Value = 50, Time = t0\<rparr>, \<lparr>Value = 48, Time = t1\<rparr>, \<lparr>Value = 53, Time = t2\<rparr>] 1 (0, 0)
        = (2, 5)"
proof -
  have a: "\<exists>m. CalculateFuelChanges PF db deviceID targetDate = Inr m
        \<and> fm_FuelConsumedPercent m =
            spec_level_consumed False (spec_values PF ''fuel_sensor_level'' rows)
        \<and> fm_FuelToppedPercent m =
            spec_level_topped False (spec_values PF ''fuel_sensor_level'' rows)"
    by (simp add: CalculateFuelChanges_spec [OF assms])
  have b: "spec_delta_discarded False d = (\<bar>d\<bar> < 2)"
    by (simp add: spec_delta_discarded_def)
  have c: "level_step False p c (x, y) =
         (if \<bar>float64_round (c - p)\<bar> < 2 then (x, y)
          else if 0 < float64_round (c - p)
            then (x, float64_round (y + float64_round (c - p)))
          else (float64_round (x + - float64_round (c - p)), y))"
    by (simp add: level_step_def Let_def)
  have d: "level_step False 50 48 (x, y) = (float64_round (x + 2), y)"
    "level_step False 48 50 (x, y) = (x, float64_round (y + 2))"
    by (simp_all add: level_step_def Let_def float64_round_numeral float64_round_neg_numeral)
  have e: "level_loop False
          [\<lparr>Value = 50, Time = t0\<rparr>, \<lparr>Value = 48, Time = t1\<rparr>, \<lparr>Value = 53, Time = t2\<rparr>] 1 (0, 0)
        = (2, 5)"
    by (simp add: level_loop_spec spec_level_example del: One_nat_def)
  have f: "float64_round (c - p) = c - p \<longrightarrow>
          level_step False p c (x, y) =
            (if \<bar>c - p\<bar> < 2 then (x, y)
             else if p < c then (x, float64_round (y + (c - p)))
             else (float64_round (x + (p - c)), y))"
    by (simp add: level_step_def Let_def)
  from a b c d e f show ?thesis by blast
qed

text \<open>
  The device \<open>idle-C\<close> on 2024-01-01: no generator activity, the levels 50, 48 and 53
  among the rows of the day.
\<close>

theorem level_noise_gate_witness:
  "hasGeneratorActivity example_db ''idle-C''
      (startOfDayUTC (midnight 19723)) (endOfDayUTC (midnight 19723)) = Inr False
   \<and> (\<exists>rows. QueryFuelReadings example_db ''idle-C''
      (startOfDayUTC (midnight 19723)) (endOfDayUTC (midnight 19723)) = Inr rows
      \<and> spec_values example_ParseFloat ''fuel_sensor_level'' rows = [50, 48, 53])
   \<and> (\<exists>m. CalculateFuelChanges example_ParseFloat example_db ''idle-C'' (midnight 19723) = Inr m
        \<and> fm_FuelConsumedPercent m = 2 \<and> fm_FuelToppedPercent m = 5)
   \<and> float64_round (48 - 50) = 48 - 50
   \<and> level_step False 50 48 (0, 0) = (2, 0)"
proof -
  let ?s = "startOfDayUTC (midnight 19723)" and ?e = "endOfDayUTC (midnight 19723)"
  let ?rows = "[Some (''50'', ?s, ''fuel_sensor_level''),
                      Some (''0'', ?s, ''fuel_sensor_volume''),
                      Some (''1'', ?s + Hour, ''fuel_sensor_volume''),
                      Some (''48'', ?s + 2 * Hour, ''fuel_sensor_level''),
                      Some (''n/a'', ?s + 3 * Hour, ''fuel_sensor_level''),
                      None,
                      Some (''100'', ?s + 4 * Hour, ''fuel_sensor_volume''),
                      Some (''21.5'', ?s + 5 * Hour, ''fuel_sensor_temperature''),
                      Some (''101'', ?s + 6 * Hour, ''fuel_sensor_volume''),
                      Some (''53'', ?s + 7 * Hour, ''fuel_sensor_level''),
                      Some (''90'', ?s + 8 * Hour, ''fuel_sensor_volume'')]"
  have g: "hasGeneratorActivity example_db ''idle-C'' ?s ?e = Inr False"
    by (simp add: hasGeneratorActivity_def example_db_def)
  have q: "QueryFuelReadings example_db ''idle-C'' ?s ?e = Inr ?rows"
    by (simp add: example_db_def)
  have v: "spec_values example_ParseFloat ''fuel_sensor_level'' ?rows = [50, 48, 53]"
    by (simp add: spec_values_Cons example_ParseFloat_def)
  have x: "float64_round (48 - 50) = 48 - 50"
    by (simp add: float64_round_neg_numeral)
  note gate = level_noise_gate [OF g q, where PF = example_ParseFloat and p = 50 and c = 48
      and x = 0 and y = 0]
  from gate obtain m
    where "CalculateFuelChanges example_ParseFloat example_db ''idle-C'' (midnight 19723) = Inr m"
      "fm_FuelConsumedPercent m = 2" "fm_FuelToppedPercent m = 5"
    unfolding v spec_level_example by blast
  moreover from gate x have "level_step False 50 48 (0, 0) = (2, 0)"
    by (simp add: float64_round_numeral)
  ultimately show ?thesis using g q v x by blast
qed

text \<open>
  The claim as stated, for the delta of the two readings, fails at the readings 0.4 and
  2.4 with the generator not active: their delta is \<open>2 - 2^-53\<close>, of magnitude
  strictly below 2.0, so the claim has it discarded; the code computes the delta in
  \<open>float64\<close>, gets 2.0, keeps it and returns topped percent 2.
\<close>

theorem level_noise_gate_counterexample:
  "float64_round (2 / 5) = 3602879701896397 / 9007199254740992
   \<and> float64_round (12 / 5) = 5404319552844595 / 2251799813685248
   \<and> \<bar>5404319552844595 / 2251799813685248 - 3602879701896397 / 9007199254740992\<bar> < (2::real)
   \<and> spec_level_discarded False
        (3602879701896397 / 9007199254740992, 5404319552844595 / 2251799813685248)
   \<and> level_step False (3602879701896397 / 9007199254740992)
        (5404319552844595 / 2251799813685248) (0, 0) = (0, 2)
   \<and> level_loop False
        [\<lparr>Value = 3602879701896397 / 9007199254740992, Time = 0\<rparr>,
         \<lparr>Value = 5404319552844595 / 2251799813685248, Time = 1\<rparr>] 1 (0, 0) = (0, 2)"
proof -
  have a: "\<bar>5404319552844595 / 2251799813685248 - 3602879701896397 / 9007199254740992\<bar>
      < (2::real)"
    by simp
  then have b: "spec_level_discarded False
        (3602879701896397 / 9007199254740992, 5404319552844595 / 2251799813685248)"
    by (simp add: spec_level_discarded_def)
  have c: "level_step False (3602879701896397 / 9007199254740992)
        (5404319552844595 / 2251799813685248) (0, 0) = (0, 2)"
    by (simp add: level_step_def Let_def float64_sub_2_4_0_4 float64_round_numeral)
  have d: "level_loop False
        [\<lparr>Value = 3602879701896397 / 9007199254740992, Time = 0\<rparr>,
         \<lparr>Value = 5404319552844595 / 2251799813685248, Time = 1\<rparr>] 1 (0, 0) = (0, 2)"
    by (simp add: level_loop_foldl spec_pairs_def c del: One_nat_def)
  from float64_round_0_4 float64_round_2_4 a b c d show ?thesis
    by blast
qed



subsection \<open>Rounding\<close>


lemma multiplier_loop_none: "decimals \<le> i \<Longrightarrow> multiplier_loop i decimals m = m"
  by (subst multiplier_loop.simps) simp










subsection \<open>The summary of a day\<close>


lemma spec_ok_Nil [simp]: "spec_ok [] = []"
  by (simp add: spec_ok_def)

lemma spec_sum_Nil [simp]: "spec_sum f [] = 0"
  by (simp add: spec_sum_def)

lemma spec_sum_Cons [simp]: "spec_sum f (r # rs) = f r + spec_sum f rs"
  by (simp add: spec_sum_def)











subsection \<open>The summary of a range\<close>

lemma range_totalFuelConsumed:
  "v_totalFuelConsumed (foldl range_step v rs) =
     v_totalFuelConsumed v + spec_sum rr_TotalFuelConsumed rs"
  by (induction rs arbitrary: v) (simp_all add: range_step_def)

lemma range_totalFuelTopped:
  "v_totalFuelTopped (foldl range_step v rs) =
     v_totalFuelTopped v + spec_sum rr_TotalFuelTopped rs"
  by (induction rs arbitrary: v) (simp_all add: range_step_def)

lemma range_totalGeneratorHours:
  "v_totalGeneratorHours (foldl range_step v rs) =
     v_totalGeneratorHours v + spec_sum rr_TotalGeneratorHours rs"
  by (induction rs arbitrary: v) (simp_all add: range_step_def)

lemma range_totalZesaHours:
  "v_totalZesaHours (foldl range_step v rs) =
     v_totalZesaHours v + spec_sum rr_TotalZesaHours rs"
  by (induction rs arbitrary: v) (simp_all add: range_step_def)

lemma range_totalOfflineHours:
  "v_totalOfflineHours (foldl range_step v rs) =
     v_totalOfflineHours v + spec_sum rr_TotalOfflineHours rs"
  by (induction rs arbitrary: v) (simp_all add: range_step_def)

lemmas range_fields = range_totalFuelConsumed range_totalFuelTopped range_totalGeneratorHours
  range_totalZesaHours range_totalOfflineHours

lemma calculateRangeSummary_spec:
  "calculateRangeSummary results startDate endDate startDateTime endDateTime =
     \<lparr>rs_DateRange = \<lparr>dr_Start = startDate, dr_End = endDate,
                      dr_IsRange = (startDate \<noteq> endDate)\<rparr>,
      rs_TotalSites = int (length results),
      rs_TotalFuelConsumed = roundToDecimal (spec_sum rr_TotalFuelConsumed results) 1,
      rs_TotalFuelTopped = roundToDecimal (spec_sum rr_TotalFuelTopped results) 1,
      rs_TotalGeneratorHours = roundToDecimal (spec_sum rr_TotalGeneratorHours results) 2,
      rs_TotalZesaHours = roundToDecimal (spec_sum rr_TotalZesaHours results) 2,
      rs_TotalOfflineHours = roundToDecimal (spec_sum rr_TotalOfflineHours results) 2,
      rs_AverageFuelPerSite =
        roundToDecimal (if results = [] then 0
          else spec_sum rr_TotalFuelConsumed results / real (length results)) 1,
      rs_DaysIncluded = calculateDaysDifference startDateTime endDateTime\<rparr>"
  by (simp add: calculateRangeSummary_def Let_def range_fields range_init_def)














subsection \<open>The days of a range\<close>

lemma midnight_diff: "midnight e - midnight s = (e - s) * 86400000000000"
  by (simp add: midnight_def Hour_def algebra_simps)

lemma float64_to_int_of_int:
  "- (2 ^ 63) \<le> k \<Longrightarrow> k \<le> 2 ^ 63 - 1 \<Longrightarrow> float64_to_int (real_of_int k) = k"
  by (simp add: float64_to_int_def Let_def)

lemma calculateDaysDifference_days:
  assumes "\<bar>endDay - startDay\<bar> \<le> 106751"
  shows "calculateDaysDifference (midnight startDay) (midnight endDay) = endDay - startDay + 1"
proof (cases "startDay = endDay")
  case True
  then show ?thesis
    by (simp add: calculateDaysDifference_def Equal_def)
next
  case False
  let ?k = "endDay - startDay"
  have ne: "midnight startDay \<noteq> midnight endDay"
    using False by (simp add: midnight_def Hour_def)
  have "minDuration \<le> midnight endDay - midnight startDay"
    "midnight endDay - midnight startDay \<le> maxDuration"
    using assms by (simp_all add: midnight_diff minDuration_def maxDuration_def)
  then have "Sub (midnight endDay) (midnight startDay) = ?k * 86400000000000"
    by (simp add: Sub_exact midnight_diff)
  then have h: "Hours (Sub (midnight endDay) (midnight startDay)) / 24 = real_of_int ?k"
    by (simp add: Hours_exact)
  have "float64_to_int (real_of_int ?k) = ?k"
    using assms by (intro float64_to_int_of_int) simp_all
  then have "float64_to_int (Hours (Sub (midnight endDay) (midnight startDay)) / 24) = ?k"
    by (simp only: h)
  then show ?thesis
    using ne by (simp add: calculateDaysDifference_def Equal_def Let_def)
qed

text \<open>
  Claim C8, as amended.  For a start day and an end day at most 106751 days apart (the
  longest time a \<open>Duration\<close> holds), \<open>calculateDaysDifference\<close> on their midnights
  returns 1 when they are equal and the difference in days plus 1 otherwise, and this
  is the \<open>daysIncluded\<close> of the range summary.  The days 19723 and 19725 are 2024-01-01
  and 2024-01-03.
\<close>

theorem calculateDaysDifference_inclusive:
  assumes "\<bar>endDay - startDay\<bar> \<le> 106751"
  shows "calculateDaysDifference (midnight startDay) (midnight endDay) =
      (if startDay = endDay then 1 else (endDay - startDay) + 1)
    \<and> rs_DaysIncluded (calculateRangeSummary results startDate endDate
          (midnight startDay) (midnight endDay)) =
      (if startDay = endDay then 1 else (endDay - startDay) + 1)
    \<and> calculateDaysDifference (midnight 19723) (midnight 19723) = 1
    \<and> calculateDaysDifference (midnight 19723) (midnight 19725) = 3"
proof -
  have "calculateDaysDifference (midnight 19723) (midnight 19723) = 19723 - 19723 + 1"
    by (rule calculateDaysDifference_days) simp
  moreover have "calculateDaysDifference (midnight 19723) (midnight 19725) = 19725 - 19723 + 1"
    by (rule calculateDaysDifference_days) simp
  ultimately show ?thesis
    using calculateDaysDifference_days [OF assms] by (simp add: calculateRangeSummary_spec)
qed

text \<open>From 2024-01-01 to 2024-01-31: 31 days.\<close>

theorem calculateDaysDifference_inclusive_witness:
  "\<bar>(19753::int) - 19723\<bar> \<le> 106751
   \<and> calculateDaysDifference (midnight 19723) (midnight 19753) = 31"
proof -
  have a: "\<bar>(19753::int) - 19723\<bar> \<le> 106751" by simp
  show ?thesis
    using a calculateDaysDifference_inclusive [OF a] by simp
qed

text \<open>
  The claim as stated, for every pair of dates, fails for a long window: from
  1970-01-01 to 2271-03-04 there are 110000 days, the \<open>Duration\<close> between them is cut to
  the largest one, and the function returns 106752 where the claim says 110001.
\<close>

theorem calculateDaysDifference_inclusive_counterexample:
  "calculateDaysDifference (midnight 0) (midnight 110000) = 106752
   \<and> calculateDaysDifference (midnight 0) (midnight 110000) \<noteq> (110000 - 0) + 1"
proof -
  have s: "Sub (midnight 110000) (midnight 0) = 9223372036854775807"
    by (simp add: Sub_def midnight_def Hour_def minDuration_def maxDuration_def)
  have "calculateDaysDifference (midnight 0) (midnight 110000) = 106752"
    by (simp add: calculateDaysDifference_def Equal_def s Hours_exact float64_to_int_def)
      (simp add: midnight_def Hour_def)
  then show ?thesis by simp
qed

subsection \<open>Batches, the order of their results, and the sort\<close>

lemma batches_from_concat:
  "0 < batchSize \<Longrightarrow> concat (batches_from batchSize sites i) = drop i sites"
proof (induction batchSize sites i rule: batches_from.induct)
  case (1 batchSize sites i)
  show ?case
  proof (cases "i < length sites")
    case True
    let ?e = "if i + batchSize > length sites then length sites else i + batchSize"
    have "concat (batches_from batchSize sites i) =
        take (?e - i) (drop i sites) @ concat (batches_from batchSize sites (i + batchSize))"
      using True "1.prems" by (subst batches_from.simps) (simp add: Let_def)
    also have "concat (batches_from batchSize sites (i + batchSize)) = drop (i + batchSize) sites"
      using True "1.prems" by (intro "1.IH") simp_all
    also have "take (?e - i) (drop i sites) @ drop (i + batchSize) sites = drop i sites"
    proof (cases "i + batchSize > length sites")
      case True
      then show ?thesis by simp
    next
      case False
      have "drop (i + batchSize) sites = drop batchSize (drop i sites)"
        by (simp add: add.commute)
      moreover have "take (?e - i) (drop i sites) = take batchSize (drop i sites)"
        using False by simp
      ultimately show ?thesis
        by (simp only: append_take_drop_id)
    qed
    finally show ?thesis .
  next
    case False
    then show ?thesis
      by (subst batches_from.simps) simp
  qed
qed

lemma mset_in_order:
  assumes "mset order = mset [0..<length xs]"
  shows "mset (map (\<lambda>k. xs ! k) order) = mset xs"
proof -
  have "mset (map (\<lambda>k. xs ! k) order) = image_mset (\<lambda>k. xs ! k) (mset order)"
    by simp
  also have "\<dots> = mset (map (\<lambda>k. xs ! k) [0..<length xs])"
    by (simp add: assms)
  also have "\<dots> = mset xs"
    by (simp add: map_nth)
  finally show ?thesis .
qed

lemma mset_concat_mset: "mset xss = mset yss \<Longrightarrow> mset (concat xss) = mset (concat yss)"
proof -
  assume "mset xss = mset yss"
  then have "sum_mset (image_mset mset (mset xss)) = sum_mset (image_mset mset (mset yss))"
    by simp
  then have "sum_mset (mset (map mset xss)) = sum_mset (mset (map mset yss))"
    by simp
  then show ?thesis
    by (simp only: mset_concat sum_mset_sum_list)
qed

lemma mset_concat_in_order:
  assumes "mset order = mset [0..<length xss]"
  shows "mset (concat (map (\<lambda>k. xss ! k) order)) = mset (concat xss)"
  by (rule mset_concat_mset) (rule mset_in_order [OF assms])

lemma length_sort_inner: "length (sort_inner key rs i j) = length rs"
proof (induction key rs i j rule: sort_inner.induct)
  case (1 key results i j)
  show ?case
  proof (cases "j < length results")
    case True
    then show ?thesis
      using "1.IH" by (subst sort_inner.simps) simp
  next
    case False
    then show ?thesis by (subst sort_inner.simps) simp
  qed
qed

lemma mset_sort_inner: "i < length rs \<Longrightarrow> mset (sort_inner key rs i j) = mset rs"
proof (induction key rs i j rule: sort_inner.induct)
  case (1 key results i j)
  show ?case
  proof (cases "j < length results")
    case True
    let ?rs = "if key (results ! j) > key (results ! i)
              then results[i := results ! j, j := results ! i] else results"
    have len: "i < length ?rs" using "1.prems" by simp
    have "mset ?rs = mset results"
      using True "1.prems" by (simp add: mset_swap)
    moreover have "sort_inner key results i j = sort_inner key ?rs i (j + 1)"
      using True by (subst sort_inner.simps) simp
    moreover have "mset (sort_inner key ?rs i (j + 1)) = mset ?rs"
      using True len by (intro "1.IH") simp_all
    ultimately show ?thesis by simp
  next
    case False
    then show ?thesis by (subst sort_inner.simps) simp
  qed
qed

lemma mset_sort_outer: "mset (sort_outer key rs i) = mset rs"
proof (induction key rs i rule: sort_outer.induct)
  case (1 key results i)
  show ?case
  proof (cases "int i < int (length results) - 1")
    case True
    then have i: "i < length results" by simp
    have "sort_outer key results i = sort_outer key (sort_inner key results i (i + 1)) (i + 1)"
      using True by (subst sort_outer.simps) simp
    moreover have "mset (sort_outer key (sort_inner key results i (i + 1)) (i + 1)) =
        mset (sort_inner key results i (i + 1))"
      using True by (rule "1.IH")
    ultimately show ?thesis
      using mset_sort_inner [OF i] by simp
  next
    case False
    then show ?thesis by (subst sort_outer.simps) simp
  qed
qed


subsection \<open>The results of a range\<close>

lemma sql_sum_None: "(sql_sum xs = None) = (xs = [])"
  by (simp add: sql_sum_def)

lemma sql_min_None: "(sql_min xs = None) = (xs = [])"
  by (cases xs) simp_all

lemma sql_max_None: "(sql_max xs = None) = (xs = [])"
  by (cases xs) simp_all

lemma getSiteRangeData_fault:
  "RangeQueryFault db (site_ID site) s e = Some err \<Longrightarrow> getSiteRangeData db site s e = None"
  by (simp add: getSiteRangeData_def QueryRangeAggregate_def)

lemma getSiteRangeData_no_days:
  "matching_days db (site_ID site) s e = [] \<Longrightarrow> getSiteRangeData db site s e = None"
  by (simp add: getSiteRangeData_def QueryRangeAggregate_def sql_sum_def Let_def
      split: option.splits)

lemma getSiteRangeData_days:
  assumes "RangeQueryFault db (site_ID site) s e = None"
    and "matching_days db (site_ID site) s e \<noteq> []"
  shows "\<exists>r. getSiteRangeData db site s e = Some r
    \<and> rr_SiteID r = site_ID site
    \<and> rr_SiteName r = site_Name site
    \<and> rr_DeviceID r = site_DeviceID site
    \<and> rr_ReadingDays r = int (length (matching_days db (site_ID site) s e))
    \<and> rr_TotalFuelConsumed r = roundToDecimal (spec_site_sum cr_TotalFuelConsumed db s e site) 1
    \<and> rr_TotalFuelTopped r = roundToDecimal (spec_site_sum cr_TotalFuelTopped db s e site) 1
    \<and> rr_TotalGeneratorHours r = roundToDecimal (spec_site_sum cr_TotalGeneratorRuntime db s e site) 2
    \<and> rr_TotalZesaHours r = roundToDecimal (spec_site_sum cr_TotalZesaRuntime db s e site) 2
    \<and> rr_TotalOfflineHours r = roundToDecimal (spec_site_sum cr_TotalOfflineTime db s e site) 2"
proof -
  let ?rows = "matching_days db (site_ID site) s e"
  obtain x xs where rows: "?rows = x # xs"
    using assms(2) by (cases ?rows) simp_all
  show ?thesis
    using assms(1)
    by (simp add: getSiteRangeData_def QueryRangeAggregate_def sql_sum_def Let_def
        spec_site_sum_def rows)
qed

lemma getSiteRangeData_None_iff:
  "(getSiteRangeData db site s e = None) =
     (RangeQueryFault db (site_ID site) s e \<noteq> None \<or> matching_days db (site_ID site) s e = [])"
proof (cases "RangeQueryFault db (site_ID site) s e")
  case None
  show ?thesis
  proof (cases "matching_days db (site_ID site) s e = []")
    case True
    then show ?thesis by (simp add: getSiteRangeData_no_days)
  next
    case False
    with getSiteRangeData_days [OF None False] None show ?thesis by auto
  qed
next
  case (Some err)
  then show ?thesis by (simp add: getSiteRangeData_fault)
qed

lemma processSiteRangeBatch_map_filter:
  "processSiteRangeBatch db sites s e = List.map_filter (\<lambda>site. getSiteRangeData db site s e) sites"
  by (induction sites) (simp_all add: map_filter_simps split: option.splits)

lemma processSiteRangeBatch_append:
  "processSiteRangeBatch db (xs @ ys) s e =
     processSiteRangeBatch db xs s e @ processSiteRangeBatch db ys s e"
  by (induction xs) (simp_all split: option.splits)

lemma processSiteRangeBatch_concat:
  "concat (map (\<lambda>batch. processSiteRangeBatch db batch s e) batches) =
     processSiteRangeBatch db (concat batches) s e"
  by (induction batches) (simp_all add: processSiteRangeBatch_append)

lemma processSiteRangeBatch_sites:
  "map f (processSiteRangeBatch db sites s e) =
     map (\<lambda>site. f (the (getSiteRangeData db site s e))) (spec_range_sites db s e sites)"
proof (induction sites)
  case Nil
  show ?case by (simp add: spec_range_sites_def)
next
  case (Cons site sites)
  show ?case
  proof (cases "getSiteRangeData db site s e")
    case None
    then have "\<not> (RangeQueryFault db (site_ID site) s e = None
        \<and> matching_days db (site_ID site) s e \<noteq> [])"
      by (simp add: getSiteRangeData_None_iff)
    then have "spec_range_sites db s e (site # sites) = spec_range_sites db s e sites"
      by (simp add: spec_range_sites_def)
    with None Cons.IH show ?thesis by simp
  next
    case (Some r)
    then have "RangeQueryFault db (site_ID site) s e = None
        \<and> matching_days db (site_ID site) s e \<noteq> []"
      using getSiteRangeData_None_iff [of db site s e] by simp
    then have "spec_range_sites db s e (site # sites) = site # spec_range_sites db s e sites"
      by (simp add: spec_range_sites_def)
    with Some Cons.IH show ?thesis by simp
  qed
qed

lemma range_site_fields:
  assumes "site \<in> set (spec_range_sites db s e sites)"
  shows "rr_SiteID (the (getSiteRangeData db site s e)) = site_ID site"
    and "rr_ReadingDays (the (getSiteRangeData db site s e)) =
          int (length (matching_days db (site_ID site) s e))"
    and "rr_TotalFuelConsumed (the (getSiteRangeData db site s e)) =
          roundToDecimal (spec_site_sum cr_TotalFuelConsumed db s e site) 1"
    and "rr_TotalFuelTopped (the (getSiteRangeData db site s e)) =
          roundToDecimal (spec_site_sum cr_TotalFuelTopped db s e site) 1"
    and "rr_TotalGeneratorHours (the (getSiteRangeData db site s e)) =
          roundToDecimal (spec_site_sum cr_TotalGeneratorRuntime db s e site) 2"
    and "rr_TotalZesaHours (the (getSiteRangeData db site s e)) =
          roundToDecimal (spec_site_sum cr_TotalZesaRuntime db s e site) 2"
    and "rr_TotalOfflineHours (the (getSiteRangeData db site s e)) =
          roundToDecimal (spec_site_sum cr_TotalOfflineTime db s e site) 2"
proof -
  from assms have a: "RangeQueryFault db (site_ID site) s e = None"
    "matching_days db (site_ID site) s e \<noteq> []"
    by (simp_all add: spec_range_sites_def)
  from getSiteRangeData_days [OF a] obtain r where "getSiteRangeData db site s e = Some r"
    "rr_SiteID r = site_ID site"
    "rr_ReadingDays r = int (length (matching_days db (site_ID site) s e))"
    "rr_TotalFuelConsumed r = roundToDecimal (spec_site_sum cr_TotalFuelConsumed db s e site) 1"
    "rr_TotalFuelTopped r = roundToDecimal (spec_site_sum cr_TotalFuelTopped db s e site) 1"
    "rr_TotalGeneratorHours r = roundToDecimal (spec_site_sum cr_TotalGeneratorRuntime db s e site) 2"
    "rr_TotalZesaHours r = roundToDecimal (spec_site_sum cr_TotalZesaRuntime db s e site) 2"
    "rr_TotalOfflineHours r = roundToDecimal (spec_site_sum cr_TotalOfflineTime db s e site) 2"
    by blast
  then show
    "rr_SiteID (the (getSiteRangeData db site s e)) = site_ID site"
    "rr_ReadingDays (the (getSiteRangeData db site s e)) =
          int (length (matching_days db (site_ID site) s e))"
    "rr_TotalFuelConsumed (the (getSiteRangeData db site s e)) =
          roundToDecimal (spec_site_sum cr_TotalFuelConsumed db s e site) 1"
    "rr_TotalFuelTopped (the (getSiteRangeData db site s e)) =
          roundToDecimal (spec_site_sum cr_TotalFuelTopped db s e site) 1"
    "rr_TotalGeneratorHours (the (getSiteRangeData db site s e)) =
          roundToDecimal (spec_site_sum cr_TotalGeneratorRuntime db s e site) 2"
    "rr_TotalZesaHours (the (getSiteRangeData db site s e)) =
          roundToDecimal (spec_site_sum cr_TotalZesaRuntime db s e site) 2"
    "rr_TotalOfflineHours (the (getSiteRangeData db site s e)) =
          roundToDecimal (spec_site_sum cr_TotalOfflineTime db s e site) 2"
    by simp_all
qed

lemma getCumulativeReadingsForRange_mset:
  assumes "append_order order (length (batches_from 20 sites 0))"
  shows "mset (getCumulativeReadingsForRange order db sites s e) =
         mset (processSiteRangeBatch db sites s e)"
proof -
  let ?brs = "map (\<lambda>batch. processSiteRangeBatch db batch s e) (batches_from 20 sites 0)"
  have o: "mset order = mset [0..<length ?brs]"
    using assms by (simp add: append_order_def)
  have "mset (getCumulativeReadingsForRange order db sites s e) =
      mset (concat (map (\<lambda>k. ?brs ! k) order))"
    by (simp add: getCumulativeReadingsForRange_def sortRangeResultsByFuelConsumed_def Let_def
        mset_sort_outer)
  also have "\<dots> = mset (concat ?brs)"
    using o by (rule mset_concat_in_order)
  also have "concat ?brs = processSiteRangeBatch db (concat (batches_from 20 sites 0)) s e"
    by (rule processSiteRangeBatch_concat)
  also have "concat (batches_from 20 sites 0) = sites"
    by (simp add: batches_from_concat)
  finally show ?thesis .
qed

lemma range_ids:
  "map rr_SiteID (processSiteRangeBatch db sites s e) =
     map site_ID (spec_range_sites db s e sites)"
  by (simp add: processSiteRangeBatch_sites range_site_fields(1) cong: map_cong)

lemma range_days:
  "list_all (\<lambda>r. 1 \<le> rr_ReadingDays r) (processSiteRangeBatch db sites s e)"
proof -
  have "map rr_ReadingDays (processSiteRangeBatch db sites s e) =
      map (\<lambda>site. int (length (matching_days db (site_ID site) s e)))
        (spec_range_sites db s e sites)"
    by (simp add: processSiteRangeBatch_sites range_site_fields(2) cong: map_cong)
  moreover have "list_all (\<lambda>d. 1 \<le> d)
      (map (\<lambda>site. int (length (matching_days db (site_ID site) s e)))
        (spec_range_sites db s e sites))"
    by (auto simp: list_all_iff spec_range_sites_def Suc_le_eq)
  ultimately have "list_all (\<lambda>d. 1 \<le> d) (map rr_ReadingDays (processSiteRangeBatch db sites s e))"
    by simp
  then show ?thesis
    by (simp add: list_all_iff)
qed

lemma example_batches:
  "batches_from 20 [a, b, c, d] 0 = [[a, b, c, d]]"
  by (simp add: batches_from.simps [of 20 _ 0] batches_from.simps [of 20 _ 20])

lemma example_batches2:
  "batches_from 20 [a, b] 0 = [[a, b]]"
  by (simp add: batches_from.simps [of 20 _ 0] batches_from.simps [of 20 _ 20])

lemma example_days:
  "matching_days example_db 1 19723 19724 = [example_reading 1 1 19723 0.04 1 2]"
  "matching_days example_db 2 19723 19724 =
     [example_reading 2 2 19723 0.02 0 24, example_reading 3 2 19724 0.02 0 24]"
  "matching_days example_db 3 19723 19724 = []"
  "matching_days example_db 4 19723 19724 = []"
  "matching_days example_db 5 19723 19724 = []"
  by (simp_all add: matching_days_def example_db_def example_reading_def)

lemma example_faults:
  "RangeQueryFault example_db n s e = (if n = 4 then Some ''connection refused'' else None)"
  by (simp add: example_db_def)

lemma example_down_days:
  "matching_days example_db_down n s e = matching_days example_db n s e"
  by (simp add: matching_days_def example_db_down_def)

lemma example_down_faults:
  "RangeQueryFault example_db_down n s e = (if n = 2 then Some ''timeout'' else None)"
  by (simp add: example_db_down_def)

text \<open>
  Claim C9, as amended.  In the range variant the sites of the result are
  exactly the sites whose aggregate query is answered and matches at least one day in the
  window, for every site list and window: a site with no matching day has no row, not
  even a row of zeros, a site whose query fails has no row either, and each row counts at
  least one day.  This holds for the results of a batch, in the order of the sites, and
  for the sorted results of all batches, in whatever order the batches are appended.
\<close>

theorem zero_day_sites_omitted:
  assumes "append_order order (length (batches_from 20 sites 0))"
  shows "map rr_SiteID (processSiteRangeBatch db sites startDate endDate) =
      map site_ID
        (filter (\<lambda>site. RangeQueryFault db (site_ID site) startDate endDate = None
                   \<and> matching_days db (site_ID site) startDate endDate \<noteq> []) sites)
    \<and> list_all (\<lambda>r. 1 \<le> rr_ReadingDays r) (processSiteRangeBatch db sites startDate endDate)
    \<and> mset (map rr_SiteID (getCumulativeReadingsForRange order db sites startDate endDate)) =
      mset (map site_ID
        (filter (\<lambda>site. RangeQueryFault db (site_ID site) startDate endDate = None
                   \<and> matching_days db (site_ID site) startDate endDate \<noteq> []) sites))
    \<and> list_all (\<lambda>r. 1 \<le> rr_ReadingDays r)
        (getCumulativeReadingsForRange order db sites startDate endDate)"
proof -
  let ?batch = "processSiteRangeBatch db sites startDate endDate"
  let ?all = "getCumulativeReadingsForRange order db sites startDate endDate"
  let ?kept = "filter (\<lambda>site. RangeQueryFault db (site_ID site) startDate endDate = None
                   \<and> matching_days db (site_ID site) startDate endDate \<noteq> []) sites"
  have ids: "map rr_SiteID ?batch = map site_ID ?kept"
    by (simp add: range_ids spec_range_sites_def)
  have m: "mset ?all = mset ?batch"
    using assms by (rule getCumulativeReadingsForRange_mset)
  then have "mset (map rr_SiteID ?all) = mset (map rr_SiteID ?batch)"
    by simp
  with ids have all_ids: "mset (map rr_SiteID ?all) = mset (map site_ID ?kept)"
    by simp
  have "set ?all = set ?batch"
    using m by (rule mset_eq_setD)
  then have "list_all (\<lambda>r. 1 \<le> rr_ReadingDays r) ?all"
    using range_days [of db sites startDate endDate] by (simp add: list_all_iff)
  with ids all_ids range_days [of db sites startDate endDate] show ?thesis
    by blast
qed

text \<open>
  The sites 1, 4, 3 and 2 over 2024-01-01 and 2024-01-02: site 1 has a row for one day
  and site 2 for two; site 3 has no row, and the query of site 4 fails.
\<close>

theorem zero_day_sites_omitted_witness:
  "append_order [0] (length (batches_from 20
        [example_site 1 ''gen-A'', example_site 4 ''down-D'', example_site 3 ''gen-B'',
         example_site 2 ''idle-C''] 0))
   \<and> map rr_SiteID (processSiteRangeBatch example_db
        [example_site 1 ''gen-A'', example_site 4 ''down-D'', example_site 3 ''gen-B'',
         example_site 2 ''idle-C''] 19723 19724) = [1, 2]
   \<and> mset (map rr_SiteID (getCumulativeReadingsForRange [0] example_db
        [example_site 1 ''gen-A'', example_site 4 ''down-D'', example_site 3 ''gen-B'',
         example_site 2 ''idle-C''] 19723 19724)) = mset [1, 2]"
proof -
  let ?sites = "[example_site 1 ''gen-A'', example_site 4 ''down-D'', example_site 3 ''gen-B'',
      example_site 2 ''idle-C'']"
  have o: "append_order [0] (length (batches_from 20 ?sites 0))"
    by (simp add: example_batches append_order_def)
  have d: "map site_ID
      (filter (\<lambda>site. RangeQueryFault example_db (site_ID site) 19723 19724 = None
                 \<and> matching_days example_db (site_ID site) 19723 19724 \<noteq> []) ?sites) = [1, 2]"
    by (simp add: example_site_def example_days example_faults)
  show ?thesis
    using o zero_day_sites_omitted [OF o, where db = example_db and startDate = 19723
        and endDate = 19724]
    unfolding d by simp
qed

text \<open>
  The claim as stated, that every site with a matching day appears, fails when an
  aggregate query fails: the table holds a row of site 2 for each of the two days of the
  window, so the site has matching days, but its query fails and the site is not in the
  result, which holds site 1 only.
\<close>

theorem zero_day_sites_omitted_counterexample:
  "matching_days example_db_down 2 19723 19724 =
     [example_reading 2 2 19723 0.02 0 24, example_reading 3 2 19724 0.02 0 24]
   \<and> RangeQueryFault example_db_down (site_ID (example_site 2 ''idle-C'')) 19723 19724 =
       Some ''timeout''
   \<and> getSiteRangeData example_db_down (example_site 2 ''idle-C'') 19723 19724 = None
   \<and> map rr_SiteID (processSiteRangeBatch example_db_down
        [example_site 1 ''gen-A'', example_site 2 ''idle-C''] 19723 19724) = [1]
   \<and> mset (map rr_SiteID (getCumulativeReadingsForRange [0] example_db_down
        [example_site 1 ''gen-A'', example_site 2 ''idle-C''] 19723 19724)) = mset [1]"
proof -
  let ?sites = "[example_site 1 ''gen-A'', example_site 2 ''idle-C'']"
  have d: "matching_days example_db_down 2 19723 19724 =
     [example_reading 2 2 19723 0.02 0 24, example_reading 3 2 19724 0.02 0 24]"
    by (simp add: example_down_days example_days)
  have f: "RangeQueryFault example_db_down (site_ID (example_site 2 ''idle-C'')) 19723 19724 =
       Some ''timeout''"
    by (simp add: example_down_faults example_site_def)
  have n: "getSiteRangeData example_db_down (example_site 2 ''idle-C'') 19723 19724 = None"
    using f by (rule getSiteRangeData_fault)
  have ids: "map rr_SiteID (processSiteRangeBatch example_db_down ?sites 19723 19724) = [1]"
    by (simp only: range_ids)
      (simp add: spec_range_sites_def example_down_faults example_down_days example_days
        example_site_def)
  have o: "append_order [0] (length (batches_from 20 ?sites 0))"
    by (simp add: example_batches2 append_order_def)
  have "mset (map rr_SiteID (getCumulativeReadingsForRange [0] example_db_down ?sites 19723 19724)) =
      mset (map rr_SiteID (processSiteRangeBatch example_db_down ?sites 19723 19724))"
    using getCumulativeReadingsForRange_mset [OF o] by simp
  with d f n ids show ?thesis by simp
qed

subsection \<open>The sites of a day\<close>

lemma same_answers_refl [simp]: "same_answers db db"
  by (simp add: same_answers_def)

lemma same_answers_trans:
  "same_answers db db1 \<Longrightarrow> same_answers db1 db2 \<Longrightarrow> same_answers db db2"
  by (simp add: same_answers_def)

lemma hasGeneratorActivity_same:
  "same_answers db db' \<Longrightarrow> hasGeneratorActivity db' = hasGeneratorActivity db"
  by (intro ext) (simp add: same_answers_def hasGeneratorActivity_def)

lemma calculateStateRuntime_same:
  "same_answers db db' \<Longrightarrow> calculateStateRuntime db' = calculateStateRuntime db"
  by (intro ext) (simp add: same_answers_def calculateStateRuntime_def)

lemma CalculateFuelChanges_same:
  assumes "same_answers db db'"
  shows "CalculateFuelChanges PF db' deviceID t = CalculateFuelChanges PF db deviceID t"
proof -
  have q: "QueryFuelReadings db' = QueryFuelReadings db"
    using assms by (simp add: same_answers_def)
  show ?thesis
    unfolding CalculateFuelChanges_def hasGeneratorActivity_same [OF assms] q ..
qed

lemma CalculatePowerRuntimes_same:
  assumes "same_answers db db'"
  shows "CalculatePowerRuntimes db' deviceID t = CalculatePowerRuntimes db deviceID t"
  unfolding CalculatePowerRuntimes_def calculateStateRuntime_same [OF assms] ..

lemma upsert_same_answers:
  "same_answers db (snd (CreateOrUpdateCumulativeReading now db siteID deviceID date fm pm))"
  by (simp add: CreateOrUpdateCumulativeReading_def same_answers_def Let_def
      split: option.splits)

lemma upsert_error_same:
  "same_answers db db' \<Longrightarrow>
   error_of (fst (CreateOrUpdateCumulativeReading now db' siteID deviceID date fm pm)) =
   error_of (fst (CreateOrUpdateCumulativeReading now db siteID deviceID date fm pm))"
  by (simp add: CreateOrUpdateCumulativeReading_def same_answers_def Let_def error_of_def
      split: option.splits)

text \<open>The result of a site, from the computations and from the outcome of the write.\<close>

lemma processSingleSite_result:
  "fst (processSingleSite PF now db site existing t ds) =
     (case (CalculateFuelChanges PF db (site_DeviceID site) t,
            CalculatePowerRuntimes db (site_DeviceID site) t) of
        (Inr fm, Inr pm) \<Rightarrow>
          (case error_of (fst (CreateOrUpdateCumulativeReading now db (site_ID site)
                   (site_DeviceID site) ds fm pm)) of
             Some err \<Rightarrow>
               zero_CumulativeSiteResult
                 \<lparr>sr_SiteID := site_ID site, sr_SiteName := site_Name site,
                  sr_DeviceID := site_DeviceID site, sr_Status := ''ERROR'', sr_Error := err\<rparr>
           | None \<Rightarrow>
               \<lparr>sr_SiteID = site_ID site, sr_SiteName = site_Name site,
                sr_DeviceID = site_DeviceID site,
                sr_FuelConsumed = fm_TotalFuelConsumed fm,
                sr_FuelTopped = fm_TotalFuelTopped fm,
                sr_FuelConsumedPercent = fm_FuelConsumedPercent fm,
                sr_FuelToppedPercent = fm_FuelToppedPercent fm,
                sr_GeneratorHours = pm_TotalGeneratorRuntime pm,
                sr_ZesaHours = pm_TotalZesaRuntime pm,
                sr_OfflineHours = pm_TotalOfflineTime pm,
                sr_Status = (if existing \<noteq> None then ''UPDATED'' else ''CREATED''),
                sr_Error = [], sr_CalculatedAt = now\<rparr>)
      | (fuelR, powerR) \<Rightarrow>
          zero_CumulativeSiteResult
            \<lparr>sr_SiteID := site_ID site, sr_SiteName := site_Name site,
             sr_DeviceID := site_DeviceID site, sr_Status := ''ERROR'',
             sr_Error := ''Calculation error: fuel='' @ fmt_v (error_of fuelR)
                           @ '', power='' @ fmt_v (error_of powerR)\<rparr>)"
  by (simp add: processSingleSite_def Let_def error_of_def split: sum.splits prod.splits)

lemma processSingleSite_store:
  "snd (processSingleSite PF now db site existing t ds) =
     (case (CalculateFuelChanges PF db (site_DeviceID site) t,
            CalculatePowerRuntimes db (site_DeviceID site) t) of
        (Inr fm, Inr pm) \<Rightarrow>
          snd (CreateOrUpdateCumulativeReading now db (site_ID site) (site_DeviceID site) ds fm pm)
      | (fuelR, powerR) \<Rightarrow> db)"
  by (simp add: processSingleSite_def Let_def split: sum.splits prod.splits)

lemma processSingleSite_same_answers:
  "same_answers db (snd (processSingleSite PF now db site existing t ds))"
  by (simp add: processSingleSite_store upsert_same_answers split: sum.splits)

lemma processSingleSite_same:
  "same_answers db db' \<Longrightarrow>
   fst (processSingleSite PF now db' site existing t ds) =
   fst (processSingleSite PF now db site existing t ds)"
  by (simp only: processSingleSite_result CalculateFuelChanges_same CalculatePowerRuntimes_same
      upsert_error_same)

lemma processSingleSite_failure:
  assumes "error_of (CalculateFuelChanges PF db (site_DeviceID site) t) \<noteq> None
    \<or> error_of (CalculatePowerRuntimes db (site_DeviceID site) t) \<noteq> None"
  shows "processSingleSite PF now db site existing t ds =
     (zero_CumulativeSiteResult
        \<lparr>sr_SiteID := site_ID site, sr_SiteName := site_Name site,
         sr_DeviceID := site_DeviceID site, sr_Status := ''ERROR'',
         sr_Error := ''Calculation error: fuel=''
            @ fmt_v (error_of (CalculateFuelChanges PF db (site_DeviceID site) t))
            @ '', power=''
            @ fmt_v (error_of (CalculatePowerRuntimes db (site_DeviceID site) t))\<rparr>, db)"
  using assms
  by (auto simp: processSingleSite_def Let_def error_of_def split: sum.splits)

lemma processBatch_results:
  "fst (processBatch PF now db sites ex t ds) =
     map (\<lambda>s. fst (processSingleSite PF now db s (ex (site_ID s)) t ds)) sites
   \<and> same_answers db (snd (processBatch PF now db sites ex t ds))"
proof (induction sites arbitrary: db)
  case Nil
  show ?case by simp
next
  case (Cons site sites)
  obtain r db1 where one: "processSingleSite PF now db site (ex (site_ID site)) t ds = (r, db1)"
    by (cases "processSingleSite PF now db site (ex (site_ID site)) t ds")
  have sa: "same_answers db db1"
    using processSingleSite_same_answers [of db PF now site "ex (site_ID site)" t ds] one
    by simp
  obtain rs db2 where rest: "processBatch PF now db1 sites ex t ds = (rs, db2)"
    by (cases "processBatch PF now db1 sites ex t ds")
  from Cons.IH [of db1] rest have
    rs: "rs = map (\<lambda>s. fst (processSingleSite PF now db1 s (ex (site_ID s)) t ds)) sites"
    and sa2: "same_answers db1 db2"
    by simp_all
  have "rs = map (\<lambda>s. fst (processSingleSite PF now db s (ex (site_ID s)) t ds)) sites"
    unfolding rs using sa by (simp add: processSingleSite_same)
  moreover have "same_answers db db2"
    using sa sa2 by (rule same_answers_trans)
  ultimately show ?case
    using one rest by simp
qed

lemma run_batches_results:
  "fst (run_batches PF now db batches ex t ds) =
     map (map (\<lambda>s. fst (processSingleSite PF now db s (ex (site_ID s)) t ds))) batches
   \<and> same_answers db (snd (run_batches PF now db batches ex t ds))"
proof (induction batches arbitrary: db)
  case Nil
  show ?case by simp
next
  case (Cons batch batches)
  obtain br db1 where one: "processBatch PF now db batch ex t ds = (br, db1)"
    by (cases "processBatch PF now db batch ex t ds")
  from processBatch_results [of PF now db batch ex t ds] one have
    br: "br = map (\<lambda>s. fst (processSingleSite PF now db s (ex (site_ID s)) t ds)) batch"
    and sa: "same_answers db db1"
    by simp_all
  obtain rest db2 where r: "run_batches PF now db1 batches ex t ds = (rest, db2)"
    by (cases "run_batches PF now db1 batches ex t ds")
  from Cons.IH [of db1] r have
    rest: "rest = map (map (\<lambda>s. fst (processSingleSite PF now db1 s (ex (site_ID s)) t ds))) batches"
    and sa2: "same_answers db1 db2"
    by simp_all
  have "rest = map (map (\<lambda>s. fst (processSingleSite PF now db s (ex (site_ID s)) t ds))) batches"
    unfolding rest using sa by (simp add: processSingleSite_same)
  moreover have "same_answers db db2"
    using sa sa2 by (rule same_answers_trans)
  ultimately show ?case
    using one r br by simp
qed

lemma processSitesInBatches_mset:
  assumes "append_order order (length (batches_from 10 sites 0))"
  shows "mset (fst (processSitesInBatches PF now order db sites ex t ds)) =
     mset (map (\<lambda>s. fst (processSingleSite PF now db s (ex (site_ID s)) t ds)) sites)"
proof -
  let ?single = "\<lambda>s. fst (processSingleSite PF now db s (ex (site_ID s)) t ds)"
  let ?bs = "batches_from 10 sites 0"
  obtain brs db' where run: "run_batches PF now db ?bs ex t ds = (brs, db')"
    by (cases "run_batches PF now db ?bs ex t ds")
  with run_batches_results [of PF now db ?bs ex t ds] have brs: "brs = map (map ?single) ?bs"
    by simp
  have o: "mset order = mset [0..<length brs]"
    using assms by (simp add: append_order_def brs)
  have "mset (fst (processSitesInBatches PF now order db sites ex t ds)) =
      mset (concat (map (\<lambda>k. brs ! k) order))"
    by (simp add: processSitesInBatches_def run sortResultsByFuelConsumed_def Let_def
        mset_sort_outer)
  also have "\<dots> = mset (concat brs)"
    using o by (rule mset_concat_in_order)
  also have "concat brs = map ?single (concat ?bs)"
    by (simp add: brs map_concat)
  also have "concat ?bs = sites"
    by (simp add: batches_from_concat)
  finally show ?thesis .
qed

lemma processBatch_append:
  "processBatch PF now db (xs @ ys) ex t ds =
     (case processBatch PF now db xs ex t ds of
        (r1, db1) \<Rightarrow>
          (case processBatch PF now db1 ys ex t ds of
             (r2, db2) \<Rightarrow> (r1 @ r2, db2)))"
  by (induction xs arbitrary: db) (simp_all split: prod.splits)

lemma processBatch_skips_failure:
  assumes "error_of (CalculateFuelChanges PF db (site_DeviceID site) t) \<noteq> None
    \<or> error_of (CalculatePowerRuntimes db (site_DeviceID site) t) \<noteq> None"
  shows "snd (processBatch PF now db (before @ site # after) ex t ds) =
         snd (processBatch PF now db (before @ after) ex t ds)"
proof -
  obtain r1 db1 where b: "processBatch PF now db before ex t ds = (r1, db1)"
    by (cases "processBatch PF now db before ex t ds")
  have sa: "same_answers db db1"
    using processBatch_results [of PF now db before ex t ds] b by simp
  have "error_of (CalculateFuelChanges PF db1 (site_DeviceID site) t) \<noteq> None
    \<or> error_of (CalculatePowerRuntimes db1 (site_DeviceID site) t) \<noteq> None"
    using assms by (simp only: CalculateFuelChanges_same [OF sa] CalculatePowerRuntimes_same [OF sa])
  then have "\<exists>r. processSingleSite PF now db1 site (ex (site_ID site)) t ds = (r, db1)"
    by (simp add: processSingleSite_failure)
  then obtain r where "processSingleSite PF now db1 site (ex (site_ID site)) t ds = (r, db1)" ..
  then have "snd (processBatch PF now db1 (site # after) ex t ds) =
      snd (processBatch PF now db1 after ex t ds)"
    by (simp split: prod.splits)
  then show ?thesis
    by (simp add: processBatch_append b split: prod.splits)
qed

text \<open>
  Claim C2, as amended.  A site whose fuel or power computation fails for the day is
  handled where it fails.  In the single-day variant \<open>processSingleSite\<close> returns the
  store as it was (no upsert) and a result with status \<open>ERROR\<close> and a message; in a
  batch, and in the sorted results of all batches, each site has the result that
  \<open>processSingleSite\<close> gives for it alone, and the store after the batch is the store
  that the other sites leave.  In the range variant a site whose aggregate query fails
  has no entry (the range result has no status and no message): \<open>getSiteRangeData\<close>
  returns \<open>nil\<close>, and the results are those of the other sites.
\<close>

theorem site_failure_is_local:
  assumes "error_of (CalculateFuelChanges PF db (site_DeviceID site) targetDate) \<noteq> None
    \<or> error_of (CalculatePowerRuntimes db (site_DeviceID site) targetDate) \<noteq> None"
    and "append_order order (length (batches_from 10 (before @ site # after) 0))"
    and "RangeQueryFault db (site_ID rsite) startDate endDate \<noteq> None"
    and "append_order rorder (length (batches_from 20 (rbefore @ rsite # rafter) 0))"
  shows "(\<exists>r. processSingleSite PF now db site existingReading targetDate dateString = (r, db)
        \<and> sr_SiteID r = site_ID site \<and> sr_Status r = ''ERROR'' \<and> sr_Error r \<noteq> [])
    \<and> fst (processBatch PF now db (before @ site # after) existingReadings targetDate dateString) =
        map (\<lambda>s. fst (processSingleSite PF now db s (existingReadings (site_ID s))
                        targetDate dateString)) (before @ site # after)
    \<and> snd (processBatch PF now db (before @ site # after) existingReadings targetDate dateString) =
        snd (processBatch PF now db (before @ after) existingReadings targetDate dateString)
    \<and> mset (fst (processSitesInBatches PF now order db (before @ site # after) existingReadings
              targetDate dateString)) =
        mset (map (\<lambda>s. fst (processSingleSite PF now db s (existingReadings (site_ID s))
                        targetDate dateString)) (before @ site # after))
    \<and> getSiteRangeData db rsite startDate endDate = None
    \<and> processSiteRangeBatch db (rbefore @ rsite # rafter) startDate endDate =
        processSiteRangeBatch db (rbefore @ rafter) startDate endDate
    \<and> mset (getCumulativeReadingsForRange rorder db (rbefore @ rsite # rafter) startDate endDate) =
        mset (processSiteRangeBatch db (rbefore @ rafter) startDate endDate)"
proof -
  have 1: "\<exists>r. processSingleSite PF now db site existingReading targetDate dateString = (r, db)
        \<and> sr_SiteID r = site_ID site \<and> sr_Status r = ''ERROR'' \<and> sr_Error r \<noteq> []"
    by (simp add: processSingleSite_failure [OF assms(1)] zero_CumulativeSiteResult_def)
  have 2: "fst (processBatch PF now db (before @ site # after) existingReadings targetDate dateString) =
        map (\<lambda>s. fst (processSingleSite PF now db s (existingReadings (site_ID s))
                        targetDate dateString)) (before @ site # after)"
    using processBatch_results by blast
  have 3: "snd (processBatch PF now db (before @ site # after) existingReadings targetDate dateString) =
        snd (processBatch PF now db (before @ after) existingReadings targetDate dateString)"
    using assms(1) by (rule processBatch_skips_failure)
  have 4: "mset (fst (processSitesInBatches PF now order db (before @ site # after) existingReadings
              targetDate dateString)) =
        mset (map (\<lambda>s. fst (processSingleSite PF now db s (existingReadings (site_ID s))
                        targetDate dateString)) (before @ site # after))"
    using assms(2) by (rule processSitesInBatches_mset)
  have 5: "getSiteRangeData db rsite startDate endDate = None"
    using assms(3) by (simp add: getSiteRangeData_None_iff)
  have 6: "processSiteRangeBatch db (rbefore @ rsite # rafter) startDate endDate =
        processSiteRangeBatch db (rbefore @ rafter) startDate endDate"
    by (simp add: processSiteRangeBatch_append 5)
  have 7: "mset (getCumulativeReadingsForRange rorder db (rbefore @ rsite # rafter) startDate endDate) =
        mset (processSiteRangeBatch db (rbefore @ rafter) startDate endDate)"
    using getCumulativeReadingsForRange_mset [OF assms(4)] by (simp only: 6)
  from 1 2 3 4 5 6 7 show ?thesis by blast
qed

lemma example_batches3: "batches_from 10 [a, b, c] 0 = [[a, b, c]]"
  by (simp add: batches_from.simps [of 10 _ 0] batches_from.simps [of 10 _ 10])

lemma example_batches3r: "batches_from 20 [a, b, c] 0 = [[a, b, c]]"
  by (simp add: batches_from.simps [of 20 _ 0] batches_from.simps [of 20 _ 20])

text \<open>
  The site 7 with the device \<open>down-D\<close>, between two sites that are computed, on
  2024-01-01; and the site 4, whose aggregate query fails, between the sites 1 and 2.
\<close>

theorem site_failure_is_local_witness:
  "error_of (CalculateFuelChanges example_ParseFloat example_db
        (site_DeviceID (example_site 7 ''down-D'')) (midnight 19723)) =
      Some ''failed to check generator activity: connection refused''
   \<and> append_order [0] (length (batches_from 10
        ([example_site 1 ''gen-A''] @ example_site 7 ''down-D'' # [example_site 2 ''idle-C'']) 0))
   \<and> RangeQueryFault example_db (site_ID (example_site 4 ''gen-A'')) 19723 19724 =
      Some ''connection refused''
   \<and> append_order [0] (length (batches_from 20
        ([example_site 1 ''gen-A''] @ example_site 4 ''gen-A'' # [example_site 2 ''idle-C'']) 0))
   \<and> (\<exists>r. processSingleSite example_ParseFloat (midnight 19725) example_db
          (example_site 7 ''down-D'') None (midnight 19723) 19723 = (r, example_db)
        \<and> sr_SiteID r = 7 \<and> sr_Status r = ''ERROR''
        \<and> sr_Error r =
           ''Calculation error: fuel=failed to check generator activity: connection refused, power=failed to calculate generator runtime: failed to get state readings: connection refused'')
   \<and> snd (processBatch example_ParseFloat (midnight 19725) example_db
          ([example_site 1 ''gen-A''] @ example_site 7 ''down-D'' # [example_site 2 ''idle-C''])
          Map.empty (midnight 19723) 19723) =
       snd (processBatch example_ParseFloat (midnight 19725) example_db
          ([example_site 1 ''gen-A''] @ [example_site 2 ''idle-C''])
          Map.empty (midnight 19723) 19723)
   \<and> getSiteRangeData example_db (example_site 4 ''gen-A'') 19723 19724 = None
   \<and> processSiteRangeBatch example_db
        ([example_site 1 ''gen-A''] @ example_site 4 ''gen-A'' # [example_site 2 ''idle-C''])
        19723 19724 =
      processSiteRangeBatch example_db
        ([example_site 1 ''gen-A''] @ [example_site 2 ''idle-C'']) 19723 19724"
proof -
  let ?d = "example_site 7 ''down-D''"
  have a0: "error_of (CalculateFuelChanges example_ParseFloat example_db
        (site_DeviceID ?d) (midnight 19723)) =
      Some ''failed to check generator activity: connection refused''"
    by (simp add: CalculateFuelChanges_def hasGeneratorActivity_def example_db_def
        example_site_def error_of_def)
  then have a: "error_of (CalculateFuelChanges example_ParseFloat example_db
        (site_DeviceID ?d) (midnight 19723)) \<noteq> None
    \<or> error_of (CalculatePowerRuntimes example_db (site_DeviceID ?d) (midnight 19723)) \<noteq> None"
    by simp
  have b: "append_order [0] (length (batches_from 10
        ([example_site 1 ''gen-A''] @ ?d # [example_site 2 ''idle-C'']) 0))"
    by (simp add: example_batches3 append_order_def)
  have c0: "RangeQueryFault example_db (site_ID (example_site 4 ''gen-A'')) 19723 19724 =
      Some ''connection refused''"
    by (simp add: example_faults example_site_def)
  then have c: "RangeQueryFault example_db (site_ID (example_site 4 ''gen-A'')) 19723 19724 \<noteq> None"
    by simp
  have d: "append_order [0] (length (batches_from 20
        ([example_site 1 ''gen-A''] @ example_site 4 ''gen-A'' # [example_site 2 ''idle-C'']) 0))"
    by (simp add: example_batches3r append_order_def)
  note t = site_failure_is_local [OF a b c d, where now = "midnight 19725"
      and existingReading = None and dateString = 19723 and existingReadings = Map.empty]
  have e: "sr_Error (fst (processSingleSite example_ParseFloat (midnight 19725) example_db
          ?d None (midnight 19723) 19723)) =
           ''Calculation error: fuel=failed to check generator activity: connection refused, power=failed to calculate generator runtime: failed to get state readings: connection refused''"
    by (simp add: processSingleSite_result CalculateFuelChanges_def CalculatePowerRuntimes_def
        calculateStateRuntime_def hasGeneratorActivity_def example_db_def example_site_def
        error_of_def fmt_v_def Let_def)
  from t obtain r where r: "processSingleSite example_ParseFloat (midnight 19725) example_db
          ?d None (midnight 19723) 19723 = (r, example_db)"
      "sr_SiteID r = site_ID ?d" "sr_Status r = ''ERROR''"
    by blast
  from r e have "\<exists>r. processSingleSite example_ParseFloat (midnight 19725) example_db
          ?d None (midnight 19723) 19723 = (r, example_db)
        \<and> sr_SiteID r = 7 \<and> sr_Status r = ''ERROR''
        \<and> sr_Error r =
           ''Calculation error: fuel=failed to check generator activity: connection refused, power=failed to calculate generator runtime: failed to get state readings: connection refused''"
    by (simp add: example_site_def)
  with a0 b c0 d t show ?thesis by blast
qed

text \<open>
  The claim as stated fails in the range variant: the aggregate query of site 4 fails,
  and the result list holds the sites 1 and 2 and no entry for site 4, so no entry with
  a status \<open>ERROR\<close> and a message.
\<close>

theorem site_failure_is_local_counterexample:
  "RangeQueryFault example_db (site_ID (example_site 4 ''gen-A'')) 19723 19724 =
     Some ''connection refused''
   \<and> getSiteRangeData example_db (example_site 4 ''gen-A'') 19723 19724 = None
   \<and> map rr_SiteID (processSiteRangeBatch example_db
        [example_site 1 ''gen-A'', example_site 4 ''gen-A'', example_site 2 ''idle-C'']
        19723 19724) = [1, 2]
   \<and> mset (map rr_SiteID (getCumulativeReadingsForRange [0] example_db
        [example_site 1 ''gen-A'', example_site 4 ''gen-A'', example_site 2 ''idle-C'']
        19723 19724)) = mset [1, 2]"
proof -
  let ?sites = "[example_site 1 ''gen-A'', example_site 4 ''gen-A'', example_site 2 ''idle-C'']"
  have f: "RangeQueryFault example_db (site_ID (example_site 4 ''gen-A'')) 19723 19724 =
     Some ''connection refused''"
    by (simp add: example_faults example_site_def)
  have n: "getSiteRangeData example_db (example_site 4 ''gen-A'') 19723 19724 = None"
    using f by (rule getSiteRangeData_fault)
  have ids: "map rr_SiteID (processSiteRangeBatch example_db ?sites 19723 19724) = [1, 2]"
    by (simp only: range_ids)
      (simp add: spec_range_sites_def example_faults example_days example_site_def)
  have o: "append_order [0] (length (batches_from 20 ?sites 0))"
    by (simp add: example_batches3r append_order_def)
  have "mset (map rr_SiteID (getCumulativeReadingsForRange [0] example_db ?sites 19723 19724)) =
      mset (map rr_SiteID (processSiteRangeBatch example_db ?sites 19723 19724))"
    using getCumulativeReadingsForRange_mset [OF o] by simp
  with f n ids show ?thesis by simp
qed

subsection \<open>The two summaries\<close>













end
